theory Spec2Isabelle
  imports Complex_Main "HOL-Library.Word"
begin

section \<open>Shared data: blobs, samples, worker message payloads\<close>

text \<open>
  A recorded chunk is a Blob; only its bytes and its \<open>size\<close> (the number of bytes) are
  used by the broadcaster. \<open>new Blob(parts)\<close> concatenates the parts in order.
\<close>

type_synonym blob = "8 word list"

definition Blob :: "blob list \<Rightarrow> blob" where
  "Blob parts = concat parts"

text \<open>Channel 0 of a decoded AudioBuffer: a Float32Array of samples.\<close>

type_synonym sample = real

text \<open>
  The objects that the workers send for model files (\<open>initiate\<close>, \<open>progress\<close>, \<open>done\<close>)
  are kept as JavaScript objects: a map from property names to values. A missing property
  reads as \<open>undefined\<close>, here \<open>None\<close>.
\<close>

datatype jsvalue = Str string | Num real

type_synonym jsobject = "string \<rightharpoonup> jsvalue"

section \<open>Broadcaster (src/routes/broadcaster.jsx)\<close>

definition WHISPER_SAMPLING_RATE :: nat where
  "WHISPER_SAMPLING_RATE = 16000"

definition MAX_AUDIO_LENGTH :: nat where
  "MAX_AUDIO_LENGTH = 30"

definition MAX_SAMPLES :: nat where
  "MAX_SAMPLES = WHISPER_SAMPLING_RATE * MAX_AUDIO_LENGTH"

text \<open>
  \<open>TypedArray.prototype.slice(start)\<close> with the end left out: a negative \<open>start\<close> counts
  from the end and is clamped at 0, a positive one is clamped at the length.
\<close>

definition slice :: "'a list \<Rightarrow> int \<Rightarrow> 'a list" where
  "slice xs start =
     (let len = int (length xs);
          k = (if start < 0 then max (len + start) 0 else min start len)
      in drop (nat k) xs)"

text \<open>Messages posted to the transcription worker.\<close>

datatype worker_request = Load | Generate "sample list" string

text \<open>
  What the component asks of its collaborators: the worker, the MediaRecorder, the timer
  and the broadcast channel. \<open>SetTimeoutRequestData ms\<close> is
  \<open>setTimeout(() => recorderRef.current.requestData(), ms)\<close>.
\<close>

datatype action =
    PostMessage worker_request
  | RecorderStart
  | RecorderStop
  | RequestData
  | SetTimeoutRequestData nat
  | Broadcast "string option" string

text \<open>
  Messages of the transcription worker, by \<open>e.data.status\<close>. \<open>Unhandled st\<close> is a message
  whose status \<open>st\<close> is none of the cases of the switch (which has no default).
\<close>

datatype worker_message =
    Loading string
  | Initiate jsobject
  | Progress jsobject
  | Done jsobject
  | Ready
  | Start
  | Update real
  | Complete "string list"
  | Unhandled string

text \<open>
  The state of the component: its \<open>useState\<close> cells and refs. \<open>recorderRef\<close> tells whether
  \<open>recorderRef.current\<close> holds a MediaRecorder; \<open>status\<close> is \<open>null\<close>, \<open>'loading'\<close> or
  \<open>'ready'\<close>; \<open>text_cell\<close> is the cell \<open>text\<close>.
\<close>

record broadcaster =
  recorderRef :: bool
  status :: "string option"
  loadingMessage :: string
  progressItems :: "jsobject list"
  text_cell :: "string list"
  tps :: "real option"
  language :: string
  languageRef :: string
  recording :: bool
  isProcessing :: bool
  chunks :: "blob list"

definition broadcaster_init :: broadcaster where
  "broadcaster_init =
     \<lparr> recorderRef = False, status = None, loadingMessage = [], progressItems = [],
       text_cell = [], tps = None, language = ''en'', languageRef = ''en'',
       recording = False, isProcessing = False, chunks = [] \<rparr>"

text \<open>The callback for messages of the worker thread (lines 57-123).\<close>

fun onMessageReceived :: "broadcaster \<Rightarrow> worker_message \<Rightarrow> broadcaster \<times> action list" where
  "onMessageReceived s (Loading d) =
     (s\<lparr>status := Some ''loading'', loadingMessage := d\<rparr>, [])"
| "onMessageReceived s (Initiate d) =
     (s\<lparr>progressItems := progressItems s @ [d]\<rparr>, [])"
| "onMessageReceived s (Progress d) =
     (s\<lparr>progressItems :=
          map (\<lambda>item. if item ''file'' = d ''file'' then item ++ d else item) (progressItems s)\<rparr>,
      [])"
| "onMessageReceived s (Done d) =
     (s\<lparr>progressItems := filter (\<lambda>item. item ''file'' \<noteq> d ''file'') (progressItems s)\<rparr>, [])"
| "onMessageReceived s Ready =
     (s\<lparr>status := Some ''ready''\<rparr>, if recorderRef s then [RecorderStart] else [])"
| "onMessageReceived s Start =
     (s\<lparr>isProcessing := True\<rparr>, if recorderRef s then [RequestData] else [])"
| "onMessageReceived s (Update t) = (s\<lparr>tps := Some t\<rparr>, [])"
| "onMessageReceived s (Complete out) =
     (s\<lparr>isProcessing := False, text_cell := out\<rparr>,
      [Broadcast (case out of [] \<Rightarrow> None | m # _ \<Rightarrow> Some m) (languageRef s)])"
| "onMessageReceived s (Unhandled st) = (s, [])"

text \<open>The callbacks of the MediaRecorder (lines 148-165).\<close>

definition onstart :: "broadcaster \<Rightarrow> broadcaster \<times> action list" where
  "onstart s = (s\<lparr>recording := True, chunks := []\<rparr>, [])"

definition ondataavailable :: "broadcaster \<Rightarrow> blob \<Rightarrow> broadcaster \<times> action list" where
  "ondataavailable s e =
     (if length e > 0 then (s\<lparr>chunks := chunks s @ [e]\<rparr>, [])
      else (s, [SetTimeoutRequestData 25]))"

definition onstop :: "broadcaster \<Rightarrow> broadcaster \<times> action list" where
  "onstop s = (s\<lparr>recording := False\<rparr>, [])"

text \<open>
  \<open>fileReader.onloadend\<close> (lines 190-205). \<open>decodeAudioData\<close> belongs to the browser and
  is a parameter: it gives channel 0 of the decoded buffer, or \<open>None\<close> when the promise
  rejects, in which case the async function ends without posting.
\<close>

definition onloadend ::
  "(blob \<Rightarrow> sample list option) \<Rightarrow> string \<Rightarrow> blob \<Rightarrow> action list" where
  "onloadend decodeAudioData lang arrayBuffer =
     (case decodeAudioData arrayBuffer of
        None \<Rightarrow> []
      | Some decoded \<Rightarrow>
          (let audio = (if length decoded > MAX_SAMPLES
                        then slice decoded (- int MAX_SAMPLES) else decoded)
           in [PostMessage (Generate audio lang)]))"

text \<open>
  The processing effect (lines 178-210). It writes no state: it reads \<open>chunks\<close> into a
  Blob, whose bytes reach \<open>onloadend\<close> through the FileReader, or asks the recorder for
  data when there is no chunk.
\<close>

definition processing_effect ::
  "(blob \<Rightarrow> sample list option) \<Rightarrow> broadcaster \<Rightarrow> action list" where
  "processing_effect decodeAudioData s =
     (if \<not> recorderRef s then []
      else if \<not> recording s then []
      else if isProcessing s then []
      else if status s \<noteq> Some ''ready'' then []
      else if length (chunks s) > 0
           then onloadend decodeAudioData (language s) (Blob (chunks s))
           else [RequestData])"

text \<open>
  Everything that can happen to the component: a worker message, a recorder callback, the
  retry timer firing (its callback throws when \<open>recorderRef.current\<close> is \<open>null\<close>), a run of
  the processing effect after a render, the user's actions, the microphone being granted
  (which creates the recorder) and the cleanup on unmount. The handlers are modelled as
  they are written; the page shows the load button only while \<open>status\<close> is \<open>null\<close>, and
  the language selector and the reset button only while it is \<open>'ready'\<close>. The effect has
  \<open>status\<close>, \<open>recording\<close>, \<open>isProcessing\<close>, \<open>chunks\<close> and \<open>language\<close> as dependencies: it
  runs after a render in which one of them has changed. Here it is an event of its own,
  which may occur at any point.
\<close>

datatype event =
    WorkerMessage worker_message
  | RecorderOnStart
  | RecorderDataAvailable blob
  | RecorderOnStop
  | RetryTimerFired
  | EffectRun
  | LoadClicked
  | LanguageSelected string
  | ResetClicked
  | UserMediaGranted
  | Unmounted

fun fire ::
  "(blob \<Rightarrow> sample list option) \<Rightarrow> broadcaster \<Rightarrow> event \<Rightarrow> broadcaster \<times> action list" where
  "fire dec s (WorkerMessage m) = onMessageReceived s m"
| "fire dec s RecorderOnStart = onstart s"
| "fire dec s (RecorderDataAvailable e) = ondataavailable s e"
| "fire dec s RecorderOnStop = onstop s"
| "fire dec s RetryTimerFired = (s, if recorderRef s then [RequestData] else [])"
| "fire dec s EffectRun = (s, processing_effect dec s)"
| "fire dec s LoadClicked = (s\<lparr>status := Some ''loading''\<rparr>, [PostMessage Load])"
| "fire dec s (LanguageSelected e) =
     (s\<lparr>language := e, languageRef := e\<rparr>,
      if recorderRef s then [RecorderStop, RecorderStart] else [])"
| "fire dec s ResetClicked = (s, if recorderRef s then [RecorderStop, RecorderStart] else [])"
| "fire dec s UserMediaGranted = (s\<lparr>recorderRef := True\<rparr>, [])"
| "fire dec s Unmounted =
     (s\<lparr>recorderRef := False\<rparr>, if recorderRef s then [RecorderStop] else [])"

text \<open>Running a sequence of events; the log keeps the actions of each event, in order.\<close>

fun run ::
  "(blob \<Rightarrow> sample list option) \<Rightarrow> broadcaster \<Rightarrow> event list \<Rightarrow> broadcaster \<times> action list list" where
  "run dec s [] = (s, [])"
| "run dec s (ev # evs) =
     (case fire dec s ev of (s', acts) \<Rightarrow>
        (case run dec s' evs of (s'', rest) \<Rightarrow> (s'', acts # rest)))"

text \<open>
  The chunks that a sequence of events hands to the component and that have a positive size,
  in the order of their delivery. This is a reading of the event sequence alone, against
  which the buffer of the component is compared.
\<close>

fun delivered :: "event list \<Rightarrow> blob list" where
  "delivered [] = []"
| "delivered (RecorderDataAvailable e # evs) = (if length e > 0 then e # delivered evs else delivered evs)"
| "delivered (ev # evs) = delivered evs"

section \<open>The broadcaster together with its MediaRecorder\<close>

text \<open>
  The MediaRecorder is the browser's, not the repository's. What the component relies on is
  its contract, which is written out here so that statements about the audio in a window
  can be made: \<open>start()\<close> on an inactive recorder begins a segment and queues the start
  callback (on an active one it throws); \<open>stop()\<close> on an active recorder ends the segment
  and queues the segment's last data followed by the stop callback (on an inactive one it
  does nothing); \<open>requestData()\<close> on an active recorder queues the data gathered so far
  (on an inactive one it throws); the queued callbacks are delivered in the order in which
  they were queued. None of the handlers has a statement after a call that can throw, so
  a throw loses nothing.

  Two fields are there for the statement only and steer nothing: \<open>setting\<close> is the input
  language that was in force when the running segment began, and \<open>captured\<close> gives, for
  each chunk of the buffer in order, the setting under which its audio was recorded. A
  queued data callback carries the setting of its segment; its bytes are known when it is
  delivered.
\<close>

datatype callback = CbStart | CbData string | CbStop

record system =
  app :: broadcaster
  active :: bool
  callbacks :: "callback list"
  setting :: string
  captured :: "string list"

definition system_init :: system where
  "system_init =
     \<lparr> app = broadcaster_init, active = False, callbacks = [], setting = ''en'', captured = [] \<rparr>"

text \<open>The recorder's reaction to a call of the component.\<close>

fun recorder :: "system \<Rightarrow> action \<Rightarrow> system" where
  "recorder s RecorderStart =
     (if active s then s
      else s\<lparr>active := True, setting := language (app s), callbacks := callbacks s @ [CbStart]\<rparr>)"
| "recorder s RecorderStop =
     (if active s then s\<lparr>active := False, callbacks := callbacks s @ [CbData (setting s), CbStop]\<rparr>
      else s)"
| "recorder s RequestData =
     (if active s then s\<lparr>callbacks := callbacks s @ [CbData (setting s)]\<rparr> else s)"
| "recorder s (PostMessage r) = s"
| "recorder s (SetTimeoutRequestData ms) = s"
| "recorder s (Broadcast m l) = s"

text \<open>
  A step of the whole: either an event that does not come from the recorder, whose calls
  then reach the recorder in the order in which the handler makes them, or the delivery of
  the oldest queued callback, with the bytes \<open>e\<close> when it is a data callback. The recorder's
  callbacks reach the component by delivery only.
\<close>

datatype system_event = External event | Deliver blob

fun is_callback :: "event \<Rightarrow> bool" where
  "is_callback RecorderOnStart = True"
| "is_callback (RecorderDataAvailable e) = True"
| "is_callback RecorderOnStop = True"
| "is_callback ev = False"

fun system_step ::
  "(blob \<Rightarrow> sample list option) \<Rightarrow> system \<Rightarrow> system_event \<Rightarrow> system" where
  "system_step dec s (External ev) =
     (if is_callback ev then s
      else (case fire dec (app s) ev of (a, acts) \<Rightarrow> foldl recorder (s\<lparr>app := a\<rparr>) acts))"
| "system_step dec s (Deliver e) =
     (case callbacks s of
        [] \<Rightarrow> s
      | CbStart # q \<Rightarrow>
          s\<lparr>app := fst (fire dec (app s) RecorderOnStart), callbacks := q, captured := []\<rparr>
      | CbData t # q \<Rightarrow>
          s\<lparr>app := fst (fire dec (app s) (RecorderDataAvailable e)), callbacks := q,
            captured := (if length e > 0 then captured s @ [t] else captured s)\<rparr>
      | CbStop # q \<Rightarrow>
          s\<lparr>app := fst (fire dec (app s) RecorderOnStop), callbacks := q\<rparr>)"

fun system_run ::
  "(blob \<Rightarrow> sample list option) \<Rightarrow> system \<Rightarrow> system_event list \<Rightarrow> system" where
  "system_run dec s [] = s"
| "system_run dec s (ev # evs) = system_run dec (system_step dec s ev) evs"

text \<open>
  Readings of a sequence of callbacks, used in the invariant of the whole. \<open>uniform c q\<close>:
  between two start callbacks all data of \<open>q\<close> has one setting, and the data before the
  first start callback has the setting \<open>c\<close> when \<open>c\<close> is given. \<open>trailing c q\<close>: the
  setting of the last data after the last start callback of \<open>q\<close>, if any. \<open>pending\<close>: the
  chunks of the buffer, as data, followed by the queued callbacks.
\<close>

fun uniform :: "string option \<Rightarrow> callback list \<Rightarrow> bool" where
  "uniform c [] = True"
| "uniform c (CbStart # q) = uniform None q"
| "uniform None (CbData t # q) = uniform (Some t) q"
| "uniform (Some u) (CbData t # q) = (u = t \<and> uniform (Some t) q)"
| "uniform c (CbStop # q) = uniform c q"

fun trailing :: "string option \<Rightarrow> callback list \<Rightarrow> string option" where
  "trailing c [] = c"
| "trailing c (CbStart # q) = trailing None q"
| "trailing c (CbData t # q) = trailing (Some t) q"
| "trailing c (CbStop # q) = trailing c q"

definition pending :: "system \<Rightarrow> callback list" where
  "pending s = map CbData (captured s) @ callbacks s"

definition queue_ok :: "system \<Rightarrow> bool" where
  "queue_ok s \<longleftrightarrow>
     uniform None (pending s)
     \<and> (active s \<longrightarrow> trailing None (pending s) = None
                      \<or> trailing None (pending s) = Some (setting s))"

definition system_inv :: "system \<Rightarrow> bool" where
  "system_inv s \<longleftrightarrow>
     queue_ok s
     \<and> length (captured s) = length (chunks (app s))
     \<and> (active s \<longrightarrow> recorderRef (app s) \<and> setting s = language (app s))"

section \<open>Receiver (src/routes/receiver.jsx)\<close>

text \<open>
  Messages of the translation worker, by \<open>e.data.status\<close>. \<open>TUpdate\<close> carries
  \<open>e.data.output\<close>, \<open>TComplete\<close> the \<open>translation_text\<close> of each element of the array
  \<open>e.data.output\<close>; \<open>TUnhandled st\<close> is a message whose status is none of the cases.
\<close>

datatype translation_message =
    TInitiate jsobject
  | TProgress jsobject
  | TDone jsobject
  | TReady
  | TUpdate string
  | TComplete "string list"
  | TUnhandled string

text \<open>
  \<open>PostTranslate t src tgt\<close> is \<open>worker.current.postMessage({text, src_lang, tgt_lang})\<close>;
  \<open>Subscribe\<close> is the subscription to the broadcast channel.
\<close>

datatype receiver_action =
    PostTranslate string "string option" string
  | Subscribe

text \<open>
  The state of the receiver. \<open>disabled\<close> is the ref \<open>disabled.current\<close>. A source language
  is \<open>languageMapping[payload.language]\<close>, which is \<open>undefined\<close> (\<open>None\<close>) for a key that
  the table lacks; \<open>items\<close> is the cell \<open>progressItems\<close>, \<open>output_cell\<close> the cell \<open>output\<close>.
\<close>

record receiver =
  ready :: "bool option"
  disabled :: bool
  items :: "jsobject list"
  input :: string
  inputRef :: string
  sourceLanguage :: "string option"
  sourceLanguageRef :: "string option"
  targetLanguage :: string
  targetLanguageRef :: string
  output_cell :: string

definition receiver_init :: receiver where
  "receiver_init =
     \<lparr> ready = None, disabled = False, items = [], input = ''Hallo.'', inputRef = ''Hallo.'',
       sourceLanguage = Some ''deu_Latn'', sourceLanguageRef = Some ''deu_Latn'',
       targetLanguage = ''eng_Latn'', targetLanguageRef = ''eng_Latn'', output_cell = [] \<rparr>"

text \<open>
  The callback for messages of the worker thread (lines 42-84). In the \<open>complete\<close> case
  \<open>e.data.output[0].translation_text\<close> throws a TypeError on an empty array, before
  anything is written.
\<close>

fun receiver_onMessageReceived ::
  "receiver \<Rightarrow> translation_message \<Rightarrow> receiver \<times> receiver_action list" where
  "receiver_onMessageReceived s (TInitiate d) =
     (s\<lparr>ready := Some False, items := items s @ [d]\<rparr>, [])"
| "receiver_onMessageReceived s (TProgress d) =
     (s\<lparr>items :=
          map (\<lambda>item. if item ''file'' = d ''file'' then item(''progress'' := d ''progress'')
                       else item) (items s)\<rparr>,
      [])"
| "receiver_onMessageReceived s (TDone d) =
     (s\<lparr>items := filter (\<lambda>item. item ''file'' \<noteq> d ''file'') (items s)\<rparr>, [])"
| "receiver_onMessageReceived s TReady = (s\<lparr>ready := Some True\<rparr>, [])"
| "receiver_onMessageReceived s (TUpdate out) = (s\<lparr>output_cell := out\<rparr>, [])"
| "receiver_onMessageReceived s (TComplete []) = (s, [])"
| "receiver_onMessageReceived s (TComplete (r # rs)) = (s\<lparr>output_cell := r, disabled := False\<rparr>, [])"
| "receiver_onMessageReceived s (TUnhandled st) = (s, [])"

text \<open>\<open>translate\<close> (lines 94-107).\<close>

definition translate :: "receiver \<Rightarrow> receiver \<times> receiver_action list" where
  "translate s =
     (if disabled s then (s, [])
      else if sourceLanguageRef s = Some (targetLanguageRef s) then (s\<lparr>output_cell := inputRef s\<rparr>, [])
      else (s\<lparr>disabled := True\<rparr>,
            [PostTranslate (inputRef s) (sourceLanguageRef s) (targetLanguageRef s)]))"

text \<open>
  What can happen to the receiver: a worker message, the effect that runs on load, a
  transcript \<open>{message, language}\<close> arriving on the channel, and the user choosing a target
  language. The table \<open>languageMapping\<close> of \<open>utils/languages\<close> is a parameter.
\<close>

datatype receiver_event =
    TranslationMessage translation_message
  | Mounted
  | TranscriptReceived string string
  | TargetChanged string

fun receiver_fire ::
  "(string \<rightharpoonup> string) \<Rightarrow> receiver \<Rightarrow> receiver_event \<Rightarrow> receiver \<times> receiver_action list" where
  "receiver_fire languageMapping s (TranslationMessage m) = receiver_onMessageReceived s m"
| "receiver_fire languageMapping s Mounted =
     (case translate s of (s', acts) \<Rightarrow> (s', acts @ [Subscribe]))"
| "receiver_fire languageMapping s (TranscriptReceived message lang) =
     translate (s\<lparr>input := message, inputRef := message,
                  sourceLanguage := languageMapping lang,
                  sourceLanguageRef := languageMapping lang\<rparr>)"
| "receiver_fire languageMapping s (TargetChanged x) =
     translate (s\<lparr>targetLanguage := x, targetLanguageRef := x\<rparr>)"

fun receiver_run ::
  "(string \<rightharpoonup> string) \<Rightarrow> receiver \<Rightarrow> receiver_event list
     \<Rightarrow> receiver \<times> receiver_action list list" where
  "receiver_run lm s [] = (s, [])"
| "receiver_run lm s (ev # evs) =
     (case receiver_fire lm s ev of (s', acts) \<Rightarrow>
        (case receiver_run lm s' evs of (s'', rest) \<Rightarrow> (s'', acts # rest)))"

text \<open>
  Readings of a trace, used to state the gate properties: whether the actions of an event
  post a translation request, and whether an event is a translation result, that is a
  \<open>complete\<close> message that carries a translation.
\<close>

fun posts :: "receiver_action list \<Rightarrow> bool" where
  "posts [] = False"
| "posts (PostTranslate t src tgt # acts) = True"
| "posts (Subscribe # acts) = posts acts"

fun is_result :: "receiver_event \<Rightarrow> bool" where
  "is_result (TranslationMessage (TComplete (r # rs))) = True"
| "is_result ev = False"

fun is_complete :: "event \<Rightarrow> bool" where
  "is_complete (WorkerMessage (Complete out)) = True"
| "is_complete ev = False"

section \<open>The trailing window\<close>

lemma slice_neg:
  "0 < n \<Longrightarrow> n \<le> length xs \<Longrightarrow> slice xs (- int n) = drop (length xs - n) xs"
  by (simp add: slice_def Let_def nat_diff_distrib')

lemmas ev_defs = broadcaster_init_def onstart_def ondataavailable_def onstop_def processing_effect_def
      onloadend_def Blob_def MAX_SAMPLES_def WHISPER_SAMPLING_RATE_def MAX_AUDIO_LENGTH_def

text \<open>
  C3. A decoded signal longer than \<open>MAX_SAMPLES\<close> (16000 samples per second times 30
  seconds) is posted to the worker as a window of exactly \<open>MAX_SAMPLES\<close> samples, which
  are the last \<open>MAX_SAMPLES\<close> samples of the signal, in order; a signal of at most
  \<open>MAX_SAMPLES\<close> samples is posted as it is.
\<close>

theorem window_is_trailing_max_samples:
  assumes "decodeAudioData arrayBuffer = Some decoded"
  shows "MAX_SAMPLES = 16000 * 30
    \<and> (length decoded > MAX_SAMPLES \<longrightarrow>
         (\<exists>audio. onloadend decodeAudioData lang arrayBuffer = [PostMessage (Generate audio lang)]
            \<and> length audio = MAX_SAMPLES
            \<and> audio = drop (length decoded - MAX_SAMPLES) decoded
            \<and> (\<forall>i < MAX_SAMPLES. audio ! i = decoded ! (length decoded - MAX_SAMPLES + i))))
    \<and> (length decoded \<le> MAX_SAMPLES \<longrightarrow>
         onloadend decodeAudioData lang arrayBuffer = [PostMessage (Generate decoded lang)])"
proof (intro conjI impI)
  show "MAX_SAMPLES = 16000 * 30"
    by (simp add: MAX_SAMPLES_def WHISPER_SAMPLING_RATE_def MAX_AUDIO_LENGTH_def)
next
  assume long: "length decoded > MAX_SAMPLES"
  have pos: "0 < MAX_SAMPLES"
    by (simp add: MAX_SAMPLES_def WHISPER_SAMPLING_RATE_def MAX_AUDIO_LENGTH_def)
  let ?audio = "drop (length decoded - MAX_SAMPLES) decoded"
  from long pos have "slice decoded (- int MAX_SAMPLES) = ?audio"
    by (simp add: slice_neg)
  with assms long
  have "onloadend decodeAudioData lang arrayBuffer = [PostMessage (Generate ?audio lang)]"
    by (simp add: onloadend_def)
  moreover from long have "length ?audio = MAX_SAMPLES"
    by simp
  moreover from long
  have "\<forall>i < MAX_SAMPLES. ?audio ! i = decoded ! (length decoded - MAX_SAMPLES + i)"
    by simp
  ultimately
  show "\<exists>audio. onloadend decodeAudioData lang arrayBuffer = [PostMessage (Generate audio lang)]
      \<and> length audio = MAX_SAMPLES
      \<and> audio = drop (length decoded - MAX_SAMPLES) decoded
      \<and> (\<forall>i < MAX_SAMPLES. audio ! i = decoded ! (length decoded - MAX_SAMPLES + i))"
    by blast
next
  assume "length decoded \<le> MAX_SAMPLES"
  with assms
  show "onloadend decodeAudioData lang arrayBuffer = [PostMessage (Generate decoded lang)]"
    by (simp add: onloadend_def)
qed

theorem window_is_trailing_max_samples_witness:
  "(\<lambda>b. Some (map real [0..<480001])) ([]::blob) = Some (map real [0..<480001])
   \<and> length (map real [0..<480001]) > MAX_SAMPLES
   \<and> onloadend (\<lambda>b. Some (map real [0..<480001])) ''en'' []
       = [PostMessage (Generate (map real [1..<480001]) ''en'')]
   \<and> (Some \<circ> map (real \<circ> unat)) ([7, 8, 9] :: blob) = Some [7, 8, 9]
   \<and> length [7, 8, 9 :: real] \<le> MAX_SAMPLES
   \<and> onloadend (Some \<circ> map (real \<circ> unat)) ''en'' [7, 8, 9]
       = [PostMessage (Generate [7, 8, 9] ''en'')]"
  using window_is_trailing_max_samples
    [of "\<lambda>b. Some (map real [0..<480001])" "[]" "map real [0..<480001]" "''en''"]
    window_is_trailing_max_samples
    [of "Some \<circ> map (real \<circ> unat)" "[7, 8, 9]" "[7, 8, 9]" "''en''"]
  by (simp add: drop_map MAX_SAMPLES_def WHISPER_SAMPLING_RATE_def MAX_AUDIO_LENGTH_def)

section \<open>The chunk buffer\<close>

lemma run_append:
  "run dec s (xs @ ys) =
     (case run dec s xs of (s', l1) \<Rightarrow> (case run dec s' ys of (s'', l2) \<Rightarrow> (s'', l1 @ l2)))"
  by (induction xs arbitrary: s) (auto split: prod.splits)

lemma run_append_state:
  "fst (run dec s (xs @ ys)) = fst (run dec (fst (run dec s xs)) ys)"
  by (simp add: run_append split: prod.splits)

lemma run_Cons_state:
  "fst (run dec s (ev # evs)) = fst (run dec (fst (fire dec s ev)) evs)"
  by (simp split: prod.splits)

lemma onMessageReceived_chunks:
  "chunks (fst (onMessageReceived s m)) = chunks s"
  by (cases m) simp_all

lemma run_chunks_no_start:
  "RecorderOnStart \<notin> set evs \<Longrightarrow> chunks (fst (run dec s evs)) = chunks s @ delivered evs"
proof (induction evs arbitrary: s)
  case Nil
  then show ?case by simp
next
  case (Cons ev evs)
  then have "chunks (fst (run dec (fst (fire dec s ev)) evs))
      = chunks (fst (fire dec s ev)) @ delivered evs"
    by simp
  with Cons.prems show ?case
    by (cases ev)
      (simp_all add: run_Cons_state onMessageReceived_chunks onstart_def ondataavailable_def
        onstop_def del: run.simps)
qed

lemma concat_filter_nonempty:
  "concat (filter (\<lambda>c. c \<noteq> []) cs) = concat cs"
  by (induction cs) simp_all

lemma fire_chunks_positive:
  "\<forall>c \<in> set (chunks s). 0 < length c \<Longrightarrow> \<forall>c \<in> set (chunks (fst (fire dec s ev))). 0 < length c"
  by (cases ev)
    (simp_all add: onMessageReceived_chunks onstart_def ondataavailable_def onstop_def)

lemma run_chunks_positive:
  "\<forall>c \<in> set (chunks s). 0 < length c \<Longrightarrow> \<forall>c \<in> set (chunks (fst (run dec s evs))). 0 < length c"
proof (induction evs arbitrary: s)
  case Nil
  then show ?case by simp
next
  case (Cons ev evs)
  from Cons.prems have "\<forall>c \<in> set (chunks (fst (fire dec s ev))). 0 < length c"
    by (rule fire_chunks_positive)
  then have "\<forall>c \<in> set (chunks (fst (run dec (fst (fire dec s ev)) evs))). 0 < length c"
    by (rule Cons.IH)
  then show ?case
    by (simp only: run_Cons_state)
qed

text \<open>
  C10. Every chunk in the buffer has a positive size: the data-available handler appends a
  chunk only when its size is positive and leaves the buffer alone otherwise, the
  recorder-start handler empties the buffer, every event keeps the property, and so it
  holds after any sequence of events from the initial state.
\<close>

theorem buffered_chunks_are_nonempty:
  "chunks (fst (ondataavailable s e)) = (if 0 < length e then chunks s @ [e] else chunks s)
   \<and> chunks (fst (onstart s)) = []
   \<and> ((\<forall>c \<in> set (chunks s). 0 < length c) \<longrightarrow>
        (\<forall>c \<in> set (chunks (fst (fire dec s ev))). 0 < length c))
   \<and> (\<forall>c \<in> set (chunks (fst (run dec broadcaster_init evs))). 0 < length c)"
proof (intro conjI impI)
  show "chunks (fst (ondataavailable s e)) = (if 0 < length e then chunks s @ [e] else chunks s)"
    by (simp add: ondataavailable_def)
  show "chunks (fst (onstart s)) = []"
    by (simp add: onstart_def)
  show "\<forall>c \<in> set (chunks (fst (fire dec s ev))). 0 < length c"
    if "\<forall>c \<in> set (chunks s). 0 < length c"
    using that by (rule fire_chunks_positive)
  have "\<forall>c \<in> set (chunks broadcaster_init). 0 < length c"
    by (simp add: broadcaster_init_def)
  then show "\<forall>c \<in> set (chunks (fst (run dec broadcaster_init evs))). 0 < length c"
    by (rule run_chunks_positive)
qed

theorem buffered_chunks_are_nonempty_witness:
  "chunks (broadcaster_init\<lparr>chunks := [[1, 2]]\<rparr>) = [[1, 2]] \<and> 0 < length [1, 2 :: 8 word]
   \<and> chunks (fst (fire (Some \<circ> map (real \<circ> unat)) (broadcaster_init\<lparr>chunks := [[1, 2]]\<rparr>)
        (RecorderDataAvailable [3]))) = [[1, 2], [3]]
   \<and> 0 < length [3 :: 8 word]
   \<and> chunks (fst (run (Some \<circ> map (real \<circ> unat)) broadcaster_init
       [RecorderOnStart, RecorderDataAvailable [1, 2], RecorderDataAvailable [],
        RecorderDataAvailable [3]])) = [[1, 2], [3]]"
  using buffered_chunks_are_nonempty [of "broadcaster_init\<lparr>chunks := [[1, 2]]\<rparr>" "[3]"
      "Some \<circ> map (real \<circ> unat)" "RecorderDataAvailable [3]"
      "[RecorderOnStart, RecorderDataAvailable [1, 2], RecorderDataAvailable [],
        RecorderDataAvailable [3]]"]
  by (simp add: ev_defs)

lemma run_data_state:
  "fst (run dec s (map RecorderDataAvailable cs)) = s\<lparr>chunks := chunks s @ filter (\<lambda>c. 0 < length c) cs\<rparr>"
proof (induction cs arbitrary: s)
  case Nil
  then show ?case by simp
next
  case (Cons c cs)
  show ?case
    by (simp add: run_Cons_state Cons.IH ondataavailable_def del: run.simps)
qed

lemma filter_nonempty_Nil:
  "filter (\<lambda>c. c \<noteq> []) cs = [] \<longleftrightarrow> concat cs = []"
  by (induction cs) simp_all

text \<open>
  C1, as the code has it. After the recorder has started, a sequence of deliveries
  \<open>cs\<close> (each one goes through \<open>ondataavailable\<close>) leaves a buffer whose Blob is the
  concatenation of \<open>cs\<close> in the order of delivery, and that Blob is what the processing
  effect decodes when it may run. The effect writes nothing: the buffer after it is the
  buffer before it, and after further deliveries \<open>ds\<close> the next Blob holds \<open>cs\<close> followed
  by \<open>ds\<close>. Only \<open>onstart\<close> empties the buffer: a sequence of events without a start
  callback leaves the chunks that were there and appends those that it delivers.
\<close>

theorem drain_reads_all_and_keeps_buffer:
  "Blob (chunks (fst (run dec s (RecorderOnStart # map RecorderDataAvailable cs)))) = concat cs
   \<and> processing_effect dec (fst (run dec s (RecorderOnStart # map RecorderDataAvailable cs)))
       = (if recorderRef s \<and> \<not> isProcessing s \<and> status s = Some ''ready''
          then (if concat cs \<noteq> [] then onloadend dec (language s) (concat cs) else [RequestData])
          else [])
   \<and> fst (run dec s (RecorderOnStart # map RecorderDataAvailable cs @ [EffectRun]))
       = fst (run dec s (RecorderOnStart # map RecorderDataAvailable cs))
   \<and> Blob (chunks (fst (run dec s
        (RecorderOnStart # map RecorderDataAvailable cs @ EffectRun # map RecorderDataAvailable ds))))
       = concat cs @ concat ds
   \<and> (RecorderOnStart \<notin> set evs \<longrightarrow> chunks (fst (run dec s evs)) = chunks s @ delivered evs)"
proof -
  define s1 where "s1 = fst (run dec s (RecorderOnStart # map RecorderDataAvailable cs))"
  have s1: "s1 = s\<lparr>recording := True, chunks := filter (\<lambda>c. 0 < length c) cs\<rparr>"
    unfolding s1_def
    by (simp add: run_Cons_state run_data_state onstart_def del: run.simps)
  have a: "Blob (chunks s1) = concat cs"
    by (simp add: s1 Blob_def concat_filter_nonempty)
  have b: "processing_effect dec s1
       = (if recorderRef s \<and> \<not> isProcessing s \<and> status s = Some ''ready''
          then (if concat cs \<noteq> [] then onloadend dec (language s) (concat cs) else [RequestData])
          else [])"
    by (simp add: s1 processing_effect_def Blob_def concat_filter_nonempty filter_nonempty_Nil)
  have c: "fst (run dec s ((RecorderOnStart # map RecorderDataAvailable cs) @ [EffectRun])) = s1"
    unfolding s1_def run_append_state by simp
  have "fst (run dec s
        ((RecorderOnStart # map RecorderDataAvailable cs) @ EffectRun # map RecorderDataAvailable ds))
      = fst (run dec s1 (EffectRun # map RecorderDataAvailable ds))"
    unfolding s1_def run_append_state ..
  also have "\<dots> = fst (run dec s1 (map RecorderDataAvailable ds))"
    by (simp add: run_Cons_state del: run.simps)
  also have "\<dots> = s1\<lparr>chunks := chunks s1 @ filter (\<lambda>c. 0 < length c) ds\<rparr>"
    by (rule run_data_state)
  finally have "Blob (chunks (fst (run dec s
        ((RecorderOnStart # map RecorderDataAvailable cs) @ EffectRun # map RecorderDataAvailable ds))))
       = Blob (chunks s1) @ concat ds"
    by (simp add: Blob_def concat_filter_nonempty)
  with a have d: "Blob (chunks (fst (run dec s
        ((RecorderOnStart # map RecorderDataAvailable cs) @ EffectRun # map RecorderDataAvailable ds))))
       = concat cs @ concat ds"
    by simp
  have e: "RecorderOnStart \<notin> set evs \<longrightarrow> chunks (fst (run dec s evs)) = chunks s @ delivered evs"
    by (simp add: run_chunks_no_start)
  from a b c d e show ?thesis
    unfolding s1_def append_Cons by blast
qed

theorem drain_reads_all_and_keeps_buffer_witness:
  "Blob (chunks (fst (run (Some \<circ> map (real \<circ> unat))
       (broadcaster_init\<lparr>recorderRef := True, status := Some ''ready''\<rparr>)
       (RecorderOnStart # map RecorderDataAvailable [[1, 2], [], [3]])))) = [1, 2, 3]
   \<and> processing_effect (Some \<circ> map (real \<circ> unat))
        (fst (run (Some \<circ> map (real \<circ> unat))
          (broadcaster_init\<lparr>recorderRef := True, status := Some ''ready''\<rparr>)
          (RecorderOnStart # map RecorderDataAvailable [[1, 2], [], [3]])))
       = [PostMessage (Generate [1, 2, 3] ''en'')]
   \<and> Blob (chunks (fst (run (Some \<circ> map (real \<circ> unat))
       (broadcaster_init\<lparr>recorderRef := True, status := Some ''ready''\<rparr>)
       (RecorderOnStart # map RecorderDataAvailable [[1, 2], [], [3]]
          @ EffectRun # map RecorderDataAvailable [[4]])))) = [1, 2, 3, 4]
   \<and> RecorderOnStart \<notin> set [RecorderDataAvailable [5], EffectRun, WorkerMessage Start]
   \<and> chunks (fst (run (Some \<circ> map (real \<circ> unat))
       (broadcaster_init\<lparr>recorderRef := True, status := Some ''ready''\<rparr>)
       [RecorderDataAvailable [5], EffectRun, WorkerMessage Start])) = [[5]]"
  using drain_reads_all_and_keeps_buffer [of "Some \<circ> map (real \<circ> unat)"
      "broadcaster_init\<lparr>recorderRef := True, status := Some ''ready''\<rparr>"
      "[[1, 2], [], [3]]" "[[4]]" "[RecorderDataAvailable [5], EffectRun, WorkerMessage Start]"]
  by (simp add: ev_defs)

text \<open>
  C1, as the specification states it, fails. In this run the recorder starts, the effect
  asks for data, the chunk \<open>[1, 2]\<close> arrives and the effect posts the window decoded from
  it. The buffer is not emptied: when the chunk \<open>[3]\<close> has arrived and the transcription
  has completed, the next window is decoded from \<open>[1, 2]\<close> and \<open>[3]\<close>, and the buffer holds
  both chunks at the end.
\<close>

theorem drain_leaves_buffer_counterexample:
  "run (Some \<circ> map (real \<circ> unat)) broadcaster_init
     [UserMediaGranted, LoadClicked, WorkerMessage Ready, RecorderOnStart, EffectRun,
      RecorderDataAvailable [1, 2], EffectRun, WorkerMessage Start,
      RecorderDataAvailable [3], EffectRun, WorkerMessage (Complete [''hi'']), EffectRun]
   = (\<lparr> recorderRef = True, status = Some ''ready'', loadingMessage = [], progressItems = [],
        text_cell = [''hi''], tps = None, language = ''en'', languageRef = ''en'',
        recording = True, isProcessing = False, chunks = [[1, 2], [3]] \<rparr>,
      [[], [PostMessage Load], [RecorderStart], [], [RequestData],
       [], [PostMessage (Generate [1, 2] ''en'')], [RequestData],
       [], [], [Broadcast (Some ''hi'') ''en''], [PostMessage (Generate [1, 2, 3] ''en'')]])"
  by (simp add: ev_defs)

section \<open>Empty chunks\<close>

lemma effect_posts_only_nonempty:
  assumes "\<forall>c \<in> set (chunks s). 0 < length c" and "PostMessage r \<in> set (processing_effect dec s)"
  shows "Blob (chunks s) \<noteq> []"
proof -
  from assms(2) have "chunks s \<noteq> []"
    by (auto simp: processing_effect_def split: if_splits)
  with assms(1) show ?thesis
    by (cases "chunks s") (auto simp: Blob_def)
qed

text \<open>
  C7. A chunk of size zero is not appended: the handler leaves the state as it is and
  sets exactly one timer of 25 ms, whose callback calls \<open>requestData()\<close> once. The
  processing effect posts nothing to the worker while the buffer is empty, and after any
  sequence of events from the initial state a window is only ever posted from a Blob that
  has at least one byte.
\<close>

theorem empty_chunk_is_retried_not_buffered:
  assumes "length e = 0"
  shows "fire dec s (RecorderDataAvailable e) = (s, [SetTimeoutRequestData 25])
    \<and> fire dec s RetryTimerFired = (s, if recorderRef s then [RequestData] else [])
    \<and> (chunks s = [] \<longrightarrow> (\<forall>r. PostMessage r \<notin> set (processing_effect dec s)))
    \<and> (\<forall>r. PostMessage r \<in> set (processing_effect dec (fst (run dec broadcaster_init evs)))
          \<longrightarrow> Blob (chunks (fst (run dec broadcaster_init evs))) \<noteq> [])"
proof (intro conjI impI allI)
  from assms show "fire dec s (RecorderDataAvailable e) = (s, [SetTimeoutRequestData 25])"
    by (simp add: ondataavailable_def)
  show "fire dec s RetryTimerFired = (s, if recorderRef s then [RequestData] else [])"
    by simp
  show "PostMessage r \<notin> set (processing_effect dec s)" if "chunks s = []" for r
    using that by (simp add: processing_effect_def)
  have "\<forall>c \<in> set (chunks broadcaster_init). 0 < length c"
    by (simp add: broadcaster_init_def)
  then have pos: "\<forall>c \<in> set (chunks (fst (run dec broadcaster_init evs))). 0 < length c"
    by (rule run_chunks_positive)
  show "Blob (chunks (fst (run dec broadcaster_init evs))) \<noteq> []"
    if "PostMessage r \<in> set (processing_effect dec (fst (run dec broadcaster_init evs)))" for r
    using pos that by (rule effect_posts_only_nonempty)
qed

theorem empty_chunk_is_retried_not_buffered_witness:
  "length ([]::blob) = 0
   \<and> chunks (fst (run (Some \<circ> map (real \<circ> unat)) broadcaster_init
        [UserMediaGranted, LoadClicked, WorkerMessage Ready, RecorderOnStart])) = []
   \<and> fire (Some \<circ> map (real \<circ> unat))
        (fst (run (Some \<circ> map (real \<circ> unat)) broadcaster_init
           [UserMediaGranted, LoadClicked, WorkerMessage Ready, RecorderOnStart]))
        (RecorderDataAvailable [])
      = (fst (run (Some \<circ> map (real \<circ> unat)) broadcaster_init
           [UserMediaGranted, LoadClicked, WorkerMessage Ready, RecorderOnStart]),
         [SetTimeoutRequestData 25])
   \<and> processing_effect (Some \<circ> map (real \<circ> unat))
        (fst (run (Some \<circ> map (real \<circ> unat)) broadcaster_init
           [UserMediaGranted, LoadClicked, WorkerMessage Ready, RecorderOnStart,
            RecorderDataAvailable []])) = [RequestData]
   \<and> PostMessage (Generate [1, 2] ''en'') \<in> set (processing_effect (Some \<circ> map (real \<circ> unat))
        (fst (run (Some \<circ> map (real \<circ> unat)) broadcaster_init
           [UserMediaGranted, LoadClicked, WorkerMessage Ready, RecorderOnStart,
            RecorderDataAvailable [], RecorderDataAvailable [1, 2]])))
   \<and> Blob (chunks (fst (run (Some \<circ> map (real \<circ> unat)) broadcaster_init
           [UserMediaGranted, LoadClicked, WorkerMessage Ready, RecorderOnStart,
            RecorderDataAvailable [], RecorderDataAvailable [1, 2]]))) = [1, 2]"
  using empty_chunk_is_retried_not_buffered [of "[]" "Some \<circ> map (real \<circ> unat)"
      "fst (run (Some \<circ> map (real \<circ> unat)) broadcaster_init
           [UserMediaGranted, LoadClicked, WorkerMessage Ready, RecorderOnStart])"
      "[UserMediaGranted, LoadClicked, WorkerMessage Ready, RecorderOnStart,
            RecorderDataAvailable [], RecorderDataAvailable [1, 2]]"]
  by (simp add: ev_defs)

section \<open>Language changes\<close>

lemma uniform_append:
  "uniform c (xs @ ys) = (uniform c xs \<and> uniform (trailing c xs) ys)"
  by (induction c xs rule: uniform.induct) simp_all

lemma trailing_append:
  "trailing c (xs @ ys) = trailing (trailing c xs) ys"
  by (induction c xs rule: trailing.induct) simp_all

lemma uniform_weaken:
  "uniform (Some t) q \<Longrightarrow> uniform None q"
proof (induction q)
  case Nil
  then show ?case by simp
next
  case (Cons a q)
  then show ?case by (cases a) auto
qed

lemma trailing_weaken:
  "uniform (Some t) q \<Longrightarrow> trailing None q = None \<or> trailing None q = trailing (Some t) q"
proof (induction q)
  case Nil
  then show ?case by simp
next
  case (Cons a q)
  then show ?case by (cases a) auto
qed

lemma uniform_Some_data:
  "uniform (Some c) (map CbData ts) \<Longrightarrow> \<forall>t \<in> set ts. t = c"
  by (induction ts) auto

lemma uniform_data_equal:
  assumes "uniform None (map CbData ts @ q)"
  shows "\<forall>t \<in> set ts. \<forall>u \<in> set ts. t = u"
proof (cases ts)
  case Nil
  then show ?thesis by simp
next
  case (Cons x xs)
  with assms have "uniform (Some x) (map CbData xs)"
    by (simp add: uniform_append)
  then have "\<forall>u \<in> set xs. u = x"
    by (rule uniform_Some_data)
  then have "\<forall>u \<in> set ts. u = x"
    using Cons by simp
  then show ?thesis by metis
qed

lemma recorder_fields:
  "app (recorder s a) = app s" "captured (recorder s a) = captured s"
  by (cases a; simp)+

lemma foldl_recorder_fields:
  "app (foldl recorder s acts) = app s" "captured (foldl recorder s acts) = captured s"
  by (induction acts arbitrary: s) (simp_all add: recorder_fields)

lemma recorder_queue_ok:
  "queue_ok s \<Longrightarrow> queue_ok (recorder s a)"
  by (cases a) (auto simp: queue_ok_def pending_def uniform_append trailing_append)

lemma foldl_recorder_queue_ok:
  "queue_ok s \<Longrightarrow> queue_ok (foldl recorder s acts)"
  by (induction acts arbitrary: s) (simp_all add: recorder_queue_ok)

lemma queue_ok_app:
  "queue_ok (s\<lparr>app := a\<rparr>) = queue_ok s"
  by (simp add: queue_ok_def pending_def)

lemma uniform_drop_data:
  "uniform c (CbData t # q) \<Longrightarrow>
     uniform c q \<and> (trailing c q = None \<or> trailing c q = trailing c (CbData t # q))"
  by (cases c) (auto dest: uniform_weaken trailing_weaken)

lemma deliver_queue_ok:
  assumes "queue_ok s"
  shows "queue_ok (system_step dec s (Deliver e))"
proof (cases "callbacks s")
  case Nil
  with assms show ?thesis by simp
next
  case (Cons cb q)
  show ?thesis
  proof (cases cb)
    case CbStart
    with Cons assms show ?thesis
      by (simp add: queue_ok_def pending_def uniform_append trailing_append)
  next
    case (CbData t)
    show ?thesis
    proof (cases "length e > 0")
      case True
      with Cons CbData assms show ?thesis
        by (simp add: queue_ok_def pending_def)
    next
      case False
      define c where "c = trailing None (map CbData (captured s))"
      from assms Cons CbData have u: "uniform c (CbData t # q)"
        and a: "active s \<longrightarrow> trailing c (CbData t # q) = None
                  \<or> trailing c (CbData t # q) = Some (setting s)"
        by (simp_all add: queue_ok_def pending_def uniform_append trailing_append c_def)
      from u have "uniform c q"
        and "trailing c q = None \<or> trailing c q = trailing c (CbData t # q)"
        using uniform_drop_data by blast+
      with a assms Cons CbData False show ?thesis
        by (auto simp: queue_ok_def pending_def uniform_append trailing_append c_def)
    qed
  next
    case CbStop
    with Cons assms show ?thesis
      by (simp add: queue_ok_def pending_def uniform_append trailing_append)
  qed
qed

lemma external_queue_ok:
  "queue_ok s \<Longrightarrow> queue_ok (system_step dec s (External ev))"
  by (simp add: queue_ok_app foldl_recorder_queue_ok split: prod.splits)

lemma fire_chunks_external:
  "\<not> is_callback ev \<Longrightarrow> chunks (fst (fire dec s ev)) = chunks s"
  by (cases ev) (simp_all add: onMessageReceived_chunks)

lemma step_lengths:
  assumes "length (captured s) = length (chunks (app s))"
  shows "length (captured (system_step dec s ev)) = length (chunks (app (system_step dec s ev)))"
proof (cases ev)
  case (External x)
  show ?thesis
  proof (cases "is_callback x")
    case True
    with External assms show ?thesis by simp
  next
    case False
    obtain a acts where f: "fire dec (app s) x = (a, acts)"
      by (cases "fire dec (app s) x")
    from False have "chunks (fst (fire dec (app s) x)) = chunks (app s)"
      by (rule fire_chunks_external)
    with f have "chunks a = chunks (app s)" by simp
    with External False assms f show ?thesis
      by (simp add: foldl_recorder_fields)
  qed
next
  case (Deliver e)
  show ?thesis
  proof (cases "callbacks s")
    case Nil
    with Deliver assms show ?thesis by simp
  next
    case (Cons cb q)
    with Deliver assms show ?thesis
      by (cases cb) (simp_all add: onstart_def ondataavailable_def onstop_def)
  qed
qed

lemma onMessageReceived_capture:
  "recorderRef (fst (onMessageReceived b m)) = recorderRef b"
  "language (fst (onMessageReceived b m)) = language b"
  "RecorderStop \<notin> set (snd (onMessageReceived b m))"
  "RecorderStart \<in> set (snd (onMessageReceived b m)) \<longrightarrow> recorderRef b"
  by (cases m; simp)+

lemma recorder_capture:
  assumes "active s \<longrightarrow> recorderRef (app s) \<and> setting s = language (app s)"
    and "a = RecorderStart \<longrightarrow> recorderRef (app s)"
  shows "active (recorder s a) \<longrightarrow>
     recorderRef (app (recorder s a)) \<and> setting (recorder s a) = language (app (recorder s a))"
  using assms by (cases a) simp_all

lemma foldl_recorder_capture:
  assumes "active s \<longrightarrow> recorderRef (app s) \<and> setting s = language (app s)"
    and "RecorderStart \<in> set acts \<longrightarrow> recorderRef (app s)"
  shows "active (foldl recorder s acts) \<longrightarrow>
     recorderRef (app s) \<and> setting (foldl recorder s acts) = language (app s)"
  using assms
proof (induction acts arbitrary: s)
  case Nil
  then show ?case by simp
next
  case (Cons a acts)
  have "active (recorder s a) \<longrightarrow>
     recorderRef (app (recorder s a)) \<and> setting (recorder s a) = language (app (recorder s a))"
    using Cons.prems by (intro recorder_capture) simp_all
  moreover have "RecorderStart \<in> set acts \<longrightarrow> recorderRef (app (recorder s a))"
    using Cons.prems by (simp add: recorder_fields)
  ultimately have "active (foldl recorder (recorder s a) acts) \<longrightarrow>
     recorderRef (app (recorder s a))
     \<and> setting (foldl recorder (recorder s a) acts) = language (app (recorder s a))"
    by (rule Cons.IH)
  then show ?case by (simp add: recorder_fields)
qed

lemma step_capture:
  assumes "active s \<longrightarrow> recorderRef (app s) \<and> setting s = language (app s)"
  shows "active (system_step dec s ev) \<longrightarrow>
     recorderRef (app (system_step dec s ev))
     \<and> setting (system_step dec s ev) = language (app (system_step dec s ev))"
proof (cases ev)
  case (Deliver e)
  show ?thesis
  proof (cases "callbacks s")
    case Nil
    with Deliver assms show ?thesis by simp
  next
    case (Cons cb q)
    with Deliver assms show ?thesis
      by (cases cb) (simp_all add: onstart_def ondataavailable_def onstop_def)
  qed
next
  case (External x)
  show ?thesis
  proof (cases x)
    case (WorkerMessage m)
    obtain a acts where f: "onMessageReceived (app s) m = (a, acts)"
      by (cases "onMessageReceived (app s) m")
    with onMessageReceived_capture [of "app s" m]
    have a: "recorderRef a = recorderRef (app s)" "language a = language (app s)"
      "RecorderStart \<in> set acts \<longrightarrow> recorderRef (app s)"
      by simp_all
    have "active (foldl recorder (s\<lparr>app := a\<rparr>) acts) \<longrightarrow>
        recorderRef (app (s\<lparr>app := a\<rparr>))
        \<and> setting (foldl recorder (s\<lparr>app := a\<rparr>) acts) = language (app (s\<lparr>app := a\<rparr>))"
      using assms a by (intro foldl_recorder_capture) simp_all
    with External WorkerMessage f show ?thesis
      by (simp add: foldl_recorder_fields)
  qed (use External assms in \<open>simp_all add: processing_effect_def onloadend_def
        split: option.splits\<close>)
qed

lemma step_inv:
  "system_inv s \<Longrightarrow> system_inv (system_step dec s ev)"
  unfolding system_inv_def
  using deliver_queue_ok external_queue_ok step_lengths step_capture
  by (cases ev) blast+

lemma run_inv:
  "system_inv s \<Longrightarrow> system_inv (system_run dec s evs)"
  by (induction evs arbitrary: s) (simp_all add: step_inv)

lemma init_inv: "system_inv system_init"
  by (simp add: system_inv_def queue_ok_def pending_def system_init_def broadcaster_init_def)

text \<open>
  C8. A change of the input language stores the new language and, on the recorder that
  the component holds, calls \<open>stop()\<close> and then \<open>start()\<close>; the recorder's start callback
  empties the buffer, and from then until the next start callback the buffer holds exactly
  the chunks of positive size delivered since. On a recorder that is recording, the change
  therefore ends the running segment, whose last data is still of the old setting, and
  begins a segment under the new setting. With the recorder behaving as described above,
  after any sequence of steps from the initial state every chunk of the buffer has its
  setting recorded, all chunks of the buffer were recorded under one and the same setting,
  and while the recorder is recording that setting is the current input language: the
  language never changes under a running segment. So the Blob of a window never holds audio
  of two settings. (The language posted with a window is the current one; between the
  selection and the start callback of the new segment it is the new language, while the
  audio in the buffer is still of the old setting.)
\<close>

theorem language_change_restarts_capture:
  "fire dec b (LanguageSelected l)
     = (b\<lparr>language := l, languageRef := l\<rparr>, if recorderRef b then [RecorderStop, RecorderStart] else [])
   \<and> chunks (fst (fire dec b RecorderOnStart)) = []
   \<and> (RecorderOnStart \<notin> set post \<longrightarrow>
        chunks (fst (run dec b (pre @ RecorderOnStart # post))) = delivered post
        \<and> processing_effect dec (fst (run dec b (pre @ RecorderOnStart # post)))
            \<in> {[], [RequestData],
                onloadend dec (language (fst (run dec b (pre @ RecorderOnStart # post))))
                  (Blob (delivered post))})
   \<and> (active s \<and> recorderRef (app s) \<longrightarrow>
        system_step dec s (External (LanguageSelected l))
          = s\<lparr>app := (app s)\<lparr>language := l, languageRef := l\<rparr>, setting := l,
              callbacks := callbacks s @ [CbData (setting s), CbStop, CbStart]\<rparr>)
   \<and> length (captured (system_run dec system_init evs))
        = length (chunks (app (system_run dec system_init evs)))
   \<and> (\<forall>t \<in> set (captured (system_run dec system_init evs)).
        \<forall>u \<in> set (captured (system_run dec system_init evs)). t = u)
   \<and> (active (system_run dec system_init evs) \<longrightarrow>
        setting (system_run dec system_init evs) = language (app (system_run dec system_init evs)))"
proof (intro conjI)
  show "fire dec b (LanguageSelected l)
     = (b\<lparr>language := l, languageRef := l\<rparr>, if recorderRef b then [RecorderStop, RecorderStart] else [])"
    by simp
  show "chunks (fst (fire dec b RecorderOnStart)) = []"
    by (simp add: onstart_def)
  show "RecorderOnStart \<notin> set post \<longrightarrow>
        chunks (fst (run dec b (pre @ RecorderOnStart # post))) = delivered post
        \<and> processing_effect dec (fst (run dec b (pre @ RecorderOnStart # post)))
            \<in> {[], [RequestData],
                onloadend dec (language (fst (run dec b (pre @ RecorderOnStart # post))))
                  (Blob (delivered post))}"
  proof
    assume ns: "RecorderOnStart \<notin> set post"
    define s1 where "s1 = fst (fire dec (fst (run dec b pre)) RecorderOnStart)"
    have "fst (run dec b (pre @ RecorderOnStart # post)) = fst (run dec s1 post)"
      unfolding s1_def run_append_state run_Cons_state ..
    moreover have "chunks s1 = []"
      by (simp add: s1_def onstart_def)
    ultimately have c: "chunks (fst (run dec b (pre @ RecorderOnStart # post))) = delivered post"
      using run_chunks_no_start [OF ns, of dec s1] by simp
    have "processing_effect dec (fst (run dec b (pre @ RecorderOnStart # post)))
            \<in> {[], [RequestData],
                onloadend dec (language (fst (run dec b (pre @ RecorderOnStart # post))))
                  (Blob (delivered post))}"
      unfolding processing_effect_def c by simp
    with c show "chunks (fst (run dec b (pre @ RecorderOnStart # post))) = delivered post
        \<and> processing_effect dec (fst (run dec b (pre @ RecorderOnStart # post)))
            \<in> {[], [RequestData],
                onloadend dec (language (fst (run dec b (pre @ RecorderOnStart # post))))
                  (Blob (delivered post))}"
      by (rule conjI)
  qed
  show "active s \<and> recorderRef (app s) \<longrightarrow>
        system_step dec s (External (LanguageSelected l))
          = s\<lparr>app := (app s)\<lparr>language := l, languageRef := l\<rparr>, setting := l,
              callbacks := callbacks s @ [CbData (setting s), CbStop, CbStart]\<rparr>"
    by simp
  have inv: "system_inv (system_run dec system_init evs)"
    using init_inv by (rule run_inv)
  then show "length (captured (system_run dec system_init evs))
        = length (chunks (app (system_run dec system_init evs)))"
    by (simp add: system_inv_def)
  from inv have "uniform None (map CbData (captured (system_run dec system_init evs))
      @ callbacks (system_run dec system_init evs))"
    by (simp add: system_inv_def queue_ok_def pending_def)
  then show "\<forall>t \<in> set (captured (system_run dec system_init evs)).
        \<forall>u \<in> set (captured (system_run dec system_init evs)). t = u"
    by (rule uniform_data_equal)
  from inv show "active (system_run dec system_init evs) \<longrightarrow>
        setting (system_run dec system_init evs) = language (app (system_run dec system_init evs))"
    by (simp add: system_inv_def)
qed

theorem language_change_restarts_capture_witness:
  "RecorderOnStart \<notin> set [EffectRun, RecorderDataAvailable [9], EffectRun]
   \<and> chunks (fst (run (Some \<circ> map (real \<circ> unat)) broadcaster_init
       ([EffectRun, UserMediaGranted, LoadClicked, EffectRun, WorkerMessage Ready, EffectRun,
        RecorderOnStart, EffectRun, RecorderDataAvailable [1, 2], EffectRun,
        LanguageSelected ''fr'', EffectRun, RecorderDataAvailable [3], EffectRun,
        RecorderOnStop, EffectRun]
        @ RecorderOnStart # [EffectRun, RecorderDataAvailable [9], EffectRun]))) = [[9]]
   \<and> system_run (Some \<circ> map (real \<circ> unat)) system_init
       [External EffectRun, External UserMediaGranted, External LoadClicked, External EffectRun,
        External (WorkerMessage Ready), External EffectRun, Deliver [], External EffectRun,
        Deliver [1, 2], External EffectRun]
      = \<lparr> app = \<lparr> recorderRef = True, status = Some ''ready'', loadingMessage = [],
            progressItems = [], text_cell = [], tps = None, language = ''en'', languageRef = ''en'',
            recording = True, isProcessing = False, chunks = [[1, 2]] \<rparr>,
          active = True, callbacks = [], setting = ''en'', captured = [''en''] \<rparr>
   \<and> system_step (Some \<circ> map (real \<circ> unat))
        (\<lparr> app = \<lparr> recorderRef = True, status = Some ''ready'', loadingMessage = [],
            progressItems = [], text_cell = [], tps = None, language = ''en'', languageRef = ''en'',
            recording = True, isProcessing = False, chunks = [[1, 2]] \<rparr>,
          active = True, callbacks = [], setting = ''en'', captured = [''en''] \<rparr>)
        (External (LanguageSelected ''fr''))
      = \<lparr> app = \<lparr> recorderRef = True, status = Some ''ready'', loadingMessage = [],
            progressItems = [], text_cell = [], tps = None, language = ''fr'', languageRef = ''fr'',
            recording = True, isProcessing = False, chunks = [[1, 2]] \<rparr>,
          active = True, callbacks = [CbData ''en'', CbStop, CbStart], setting = ''fr'', captured = [''en''] \<rparr>
   \<and> system_run (Some \<circ> map (real \<circ> unat)) system_init
       [External EffectRun, External UserMediaGranted, External LoadClicked, External EffectRun,
        External (WorkerMessage Ready), External EffectRun, Deliver [], External EffectRun,
        Deliver [1, 2], External EffectRun,
        External (LanguageSelected ''fr''), External EffectRun, Deliver [3], External EffectRun]
      = \<lparr> app = \<lparr> recorderRef = True, status = Some ''ready'', loadingMessage = [],
            progressItems = [], text_cell = [], tps = None, language = ''fr'', languageRef = ''fr'',
            recording = True, isProcessing = False, chunks = [[1, 2], [3]] \<rparr>,
          active = True, callbacks = [CbStop, CbStart], setting = ''fr'', captured = [''en'', ''en''] \<rparr>
   \<and> processing_effect (Some \<circ> map (real \<circ> unat))
        (app (system_run (Some \<circ> map (real \<circ> unat)) system_init
       [External EffectRun, External UserMediaGranted, External LoadClicked, External EffectRun,
        External (WorkerMessage Ready), External EffectRun, Deliver [], External EffectRun,
        Deliver [1, 2], External EffectRun,
        External (LanguageSelected ''fr''), External EffectRun, Deliver [3], External EffectRun]))
      = [PostMessage (Generate [1, 2, 3] ''fr'')]
   \<and> system_run (Some \<circ> map (real \<circ> unat)) system_init
       [External EffectRun, External UserMediaGranted, External LoadClicked, External EffectRun,
        External (WorkerMessage Ready), External EffectRun, Deliver [], External EffectRun,
        Deliver [1, 2], External EffectRun,
        External (LanguageSelected ''fr''), External EffectRun, Deliver [3], External EffectRun,
        Deliver [], External EffectRun, Deliver [], External EffectRun, Deliver [9],
        External EffectRun]
      = \<lparr> app = \<lparr> recorderRef = True, status = Some ''ready'', loadingMessage = [],
            progressItems = [], text_cell = [], tps = None, language = ''fr'', languageRef = ''fr'',
            recording = True, isProcessing = False, chunks = [[9]] \<rparr>,
          active = True, callbacks = [], setting = ''fr'', captured = [''fr''] \<rparr>
   \<and> processing_effect (Some \<circ> map (real \<circ> unat))
        (app (system_run (Some \<circ> map (real \<circ> unat)) system_init
       [External EffectRun, External UserMediaGranted, External LoadClicked, External EffectRun,
        External (WorkerMessage Ready), External EffectRun, Deliver [], External EffectRun,
        Deliver [1, 2], External EffectRun,
        External (LanguageSelected ''fr''), External EffectRun, Deliver [3], External EffectRun,
        Deliver [], External EffectRun, Deliver [], External EffectRun, Deliver [9],
        External EffectRun]))
      = [PostMessage (Generate [9] ''fr'')]"
  using language_change_restarts_capture [of "(Some \<circ> map (real \<circ> unat))" broadcaster_init "''fr''"
      "[EffectRun, RecorderDataAvailable [9], EffectRun]"
      "[EffectRun, UserMediaGranted, LoadClicked, EffectRun, WorkerMessage Ready, EffectRun,
        RecorderOnStart, EffectRun, RecorderDataAvailable [1, 2], EffectRun,
        LanguageSelected ''fr'', EffectRun, RecorderDataAvailable [3], EffectRun,
        RecorderOnStop, EffectRun]"
      "\<lparr> app = \<lparr> recorderRef = True, status = Some ''ready'', loadingMessage = [],
            progressItems = [], text_cell = [], tps = None, language = ''en'', languageRef = ''en'',
            recording = True, isProcessing = False, chunks = [[1, 2]] \<rparr>,
          active = True, callbacks = [], setting = ''en'', captured = [''en''] \<rparr>"
      "[External EffectRun, External UserMediaGranted, External LoadClicked, External EffectRun,
        External (WorkerMessage Ready), External EffectRun, Deliver [], External EffectRun,
        Deliver [1, 2], External EffectRun,
        External (LanguageSelected ''fr''), External EffectRun, Deliver [3], External EffectRun]"]
    language_change_restarts_capture [of "(Some \<circ> map (real \<circ> unat))" broadcaster_init "''fr''"
      "[EffectRun, RecorderDataAvailable [9], EffectRun]"
      "[EffectRun, UserMediaGranted, LoadClicked, EffectRun, WorkerMessage Ready, EffectRun,
        RecorderOnStart, EffectRun, RecorderDataAvailable [1, 2], EffectRun,
        LanguageSelected ''fr'', EffectRun, RecorderDataAvailable [3], EffectRun,
        RecorderOnStop, EffectRun]"
      "\<lparr> app = \<lparr> recorderRef = True, status = Some ''ready'', loadingMessage = [],
            progressItems = [], text_cell = [], tps = None, language = ''en'', languageRef = ''en'',
            recording = True, isProcessing = False, chunks = [[1, 2]] \<rparr>,
          active = True, callbacks = [], setting = ''en'', captured = [''en''] \<rparr>"
      "[External EffectRun, External UserMediaGranted, External LoadClicked, External EffectRun,
        External (WorkerMessage Ready), External EffectRun, Deliver [], External EffectRun,
        Deliver [1, 2], External EffectRun,
        External (LanguageSelected ''fr''), External EffectRun, Deliver [3], External EffectRun,
        Deliver [], External EffectRun, Deliver [], External EffectRun, Deliver [9],
        External EffectRun]"]
  by (simp add: ev_defs system_init_def)

section \<open>The single-flight gates\<close>

lemma receiver_run_append:
  "receiver_run lm s (xs @ ys) =
     (case receiver_run lm s xs of (s', l1) \<Rightarrow>
        (case receiver_run lm s' ys of (s'', l2) \<Rightarrow> (s'', l1 @ l2)))"
  by (induction xs arbitrary: s) (auto split: prod.splits)

lemma receiver_run_snoc:
  "receiver_run lm s (evs @ [ev]) =
     (fst (receiver_fire lm (fst (receiver_run lm s evs)) ev),
      snd (receiver_run lm s evs) @ [snd (receiver_fire lm (fst (receiver_run lm s evs)) ev)])"
  by (simp add: receiver_run_append split: prod.splits)

lemma receiver_run_length_aux:
  "receiver_run lm s evs = (s', l) \<Longrightarrow> length l = length evs"
  by (induction evs arbitrary: s s' l) (auto split: prod.splits)

lemma receiver_run_length: "length (snd (receiver_run lm s evs)) = length evs"
  by (cases "receiver_run lm s evs") (simp add: receiver_run_length_aux)

lemma translate_gate:
  "disabled (fst (translate s)) = (disabled s \<or> posts (snd (translate s)))"
  by (simp add: translate_def)

lemma receiver_onMessageReceived_actions:
  "snd (receiver_onMessageReceived s m) = []"
  by (cases "(s, m)" rule: receiver_onMessageReceived.cases) simp_all

lemma receiver_onMessageReceived_gate:
  "disabled (fst (receiver_onMessageReceived s m))
     = (disabled s \<and> \<not> is_result (TranslationMessage m))"
  by (cases "(s, m)" rule: receiver_onMessageReceived.cases) simp_all

lemma posts_append_Subscribe: "posts (acts @ [Subscribe]) = posts acts"
  by (induction acts rule: posts.induct) simp_all

lemma receiver_fire_gate:
  "disabled (fst (receiver_fire lm s ev))
     = (\<not> is_result ev \<and> (disabled s \<or> posts (snd (receiver_fire lm s ev))))"
proof (cases ev)
  case (TranslationMessage m)
  then show ?thesis by (auto simp: receiver_onMessageReceived_gate receiver_onMessageReceived_actions)
next
  case Mounted
  then show ?thesis
    using translate_gate [of s]
    by (cases "translate s") (simp add: posts_append_Subscribe)
next
  case (TranscriptReceived m l)
  then show ?thesis by (simp add: translate_gate)
next
  case (TargetChanged x)
  then show ?thesis by (simp add: translate_gate)
qed

lemma result_posts_nothing: "is_result ev \<Longrightarrow> \<not> posts (snd (receiver_fire lm s ev))"
  by (cases ev) (simp_all add: receiver_onMessageReceived_actions)

lemma since_snoc:
  assumes "length lg = length evs"
  shows "(\<exists>i < length (evs @ [ev]). P ((lg @ [a]) ! i)
            \<and> (\<forall>e \<in> set (drop (Suc i) (evs @ [ev])). \<not> R e))
       = (P a \<or> (\<not> R ev \<and> (\<exists>i < length evs. P (lg ! i)
            \<and> (\<forall>e \<in> set (drop (Suc i) evs). \<not> R e))))"
    (is "?L = (P a \<or> (\<not> R ev \<and> ?M))")
proof
  assume ?L
  then obtain i where i: "i < Suc (length evs)" "P ((lg @ [a]) ! i)"
    "\<forall>e \<in> set (drop (Suc i) (evs @ [ev])). \<not> R e"
    by auto
  show "P a \<or> (\<not> R ev \<and> ?M)"
  proof (cases "i = length evs")
    case True
    with i(2) assms show ?thesis by (simp add: nth_append)
  next
    case False
    with i(1) have il: "i < length evs" by simp
    with i(2) assms have "P (lg ! i)" by (simp add: nth_append)
    moreover from il i(3) have "\<not> R ev" and "\<forall>e \<in> set (drop (Suc i) evs). \<not> R e"
      by simp_all
    ultimately show ?thesis using il by blast
  qed
next
  assume "P a \<or> (\<not> R ev \<and> ?M)"
  then show ?L
  proof
    assume "P a"
    with assms have "length evs < length (evs @ [ev]) \<and> P ((lg @ [a]) ! length evs)
        \<and> (\<forall>e \<in> set (drop (Suc (length evs)) (evs @ [ev])). \<not> R e)"
      by (simp add: nth_append)
    then show ?L by (rule exI [of _ "length evs"])
  next
    assume "\<not> R ev \<and> ?M"
    then obtain i where i: "\<not> R ev" "i < length evs" "P (lg ! i)"
      "\<forall>e \<in> set (drop (Suc i) evs). \<not> R e"
      by blast
    with assms have "i < length (evs @ [ev]) \<and> P ((lg @ [a]) ! i)
        \<and> (\<forall>e \<in> set (drop (Suc i) (evs @ [ev])). \<not> R e)"
      by (simp add: nth_append)
    then show ?L by (rule exI [of _ i])
  qed
qed

lemma gate_trace:
  assumes "\<not> disabled s"
  shows "disabled (fst (receiver_run lm s evs)) \<longleftrightarrow>
     (\<exists>i < length evs. posts (snd (receiver_run lm s evs) ! i)
           \<and> (\<forall>e \<in> set (drop (Suc i) evs). \<not> is_result e))"
proof (induction evs rule: rev_induct)
  case Nil
  from assms show ?case by simp
next
  case (snoc ev evs)
  define s1 where "s1 = fst (receiver_run lm s evs)"
  define lg where "lg = snd (receiver_run lm s evs)"
  define a where "a = snd (receiver_fire lm s1 ev)"
  have len: "length lg = length evs"
    unfolding lg_def by (rule receiver_run_length)
  have st: "fst (receiver_run lm s (evs @ [ev])) = fst (receiver_fire lm s1 ev)"
    and l: "snd (receiver_run lm s (evs @ [ev])) = lg @ [a]"
    by (simp_all add: receiver_run_snoc s1_def lg_def a_def)
  have "disabled (fst (receiver_fire lm s1 ev)) = (\<not> is_result ev \<and> (disabled s1 \<or> posts a))"
    unfolding a_def by (rule receiver_fire_gate)
  moreover have "is_result ev \<longrightarrow> \<not> posts a"
    unfolding a_def by (simp add: result_posts_nothing)
  ultimately have "disabled (fst (receiver_fire lm s1 ev))
      = (posts a \<or> (\<not> is_result ev \<and> disabled s1))"
    by blast
  also have "disabled s1 = (\<exists>i < length evs. posts (lg ! i)
           \<and> (\<forall>e \<in> set (drop (Suc i) evs). \<not> is_result e))"
    unfolding s1_def lg_def by (rule snoc.IH)
  also have "(posts a \<or> (\<not> is_result ev \<and> (\<exists>i < length evs. posts (lg ! i)
           \<and> (\<forall>e \<in> set (drop (Suc i) evs). \<not> is_result e))))
       = (\<exists>i < length (evs @ [ev]). posts ((lg @ [a]) ! i)
            \<and> (\<forall>e \<in> set (drop (Suc i) (evs @ [ev])). \<not> is_result e))"
    using since_snoc [OF len, of ev posts a is_result] by simp
  finally show ?case
    unfolding st l .
qed

lemma run_snoc:
  "run dec s (evs @ [ev]) =
     (fst (fire dec (fst (run dec s evs)) ev),
      snd (run dec s evs) @ [snd (fire dec (fst (run dec s evs)) ev)])"
  by (simp add: run_append split: prod.splits)

lemma onMessageReceived_isProcessing:
  "isProcessing (fst (onMessageReceived s m))
     = (m = Start \<or> (\<not> is_complete (WorkerMessage m) \<and> isProcessing s))"
  by (cases m) simp_all

lemma fire_isProcessing:
  "isProcessing (fst (fire dec s ev))
     = (ev = WorkerMessage Start \<or> (\<not> is_complete ev \<and> isProcessing s))"
  by (cases ev)
    (simp_all add: onMessageReceived_isProcessing onstart_def ondataavailable_def onstop_def)

lemma processing_trace:
  assumes "\<not> isProcessing s"
  shows "isProcessing (fst (run dec s evs)) \<longleftrightarrow>
     (\<exists>i < length evs. evs ! i = WorkerMessage Start
           \<and> (\<forall>e \<in> set (drop (Suc i) evs). \<not> is_complete e))"
proof (induction evs rule: rev_induct)
  case Nil
  from assms show ?case by simp
next
  case (snoc ev evs)
  define s1 where "s1 = fst (run dec s evs)"
  have "isProcessing (fst (run dec s (evs @ [ev]))) = isProcessing (fst (fire dec s1 ev))"
    by (simp add: run_snoc s1_def)
  also have "\<dots> = (ev = WorkerMessage Start \<or> (\<not> is_complete ev \<and> isProcessing s1))"
    by (rule fire_isProcessing)
  also have "isProcessing s1 = (\<exists>i < length evs. evs ! i = WorkerMessage Start
           \<and> (\<forall>e \<in> set (drop (Suc i) evs). \<not> is_complete e))"
    unfolding s1_def by (rule snoc.IH)
  also have "(ev = WorkerMessage Start \<or> (\<not> is_complete ev \<and>
        (\<exists>i < length evs. evs ! i = WorkerMessage Start
           \<and> (\<forall>e \<in> set (drop (Suc i) evs). \<not> is_complete e))))
      = (\<exists>i < length (evs @ [ev]). (evs @ [ev]) ! i = WorkerMessage Start
           \<and> (\<forall>e \<in> set (drop (Suc i) (evs @ [ev])). \<not> is_complete e))"
    using since_snoc [of evs evs ev "\<lambda>e. e = WorkerMessage Start" ev is_complete] by simp
  finally show ?case .
qed

text \<open>
  C2, as the code has it. Translation: \<open>translate\<close> is dropped when \<open>disabled\<close> is set, and
  otherwise (the languages differing) sets it and posts the request; a worker message
  clears it exactly when it is a \<open>complete\<close> message that carries a translation. So after
  any sequence of events from the initial state, \<open>disabled\<close> is set if and only if some
  earlier event posted a request and no such \<open>complete\<close> message has arrived since.
  Transcription: with a recorder, while recording and with the model ready, the processing
  effect is dropped if and only if \<open>isProcessing\<close> is set; when it is not set the effect
  posts the window decoded from the buffer (or asks the recorder for data when the buffer
  is empty). A request that goes through writes no state; \<open>isProcessing\<close> is set by the worker's
  \<open>start\<close> message and cleared by its \<open>complete\<close> message. So after any sequence of events
  from the initial state, \<open>isProcessing\<close> is set if and only if a \<open>start\<close> message has
  arrived and no \<open>complete\<close> message has arrived since.
\<close>

theorem gates_follow_requests_and_results:
  "(disabled r \<longrightarrow> translate r = (r, []))
   \<and> (\<not> disabled r \<and> sourceLanguageRef r \<noteq> Some (targetLanguageRef r) \<longrightarrow>
        translate r = (r\<lparr>disabled := True\<rparr>,
                       [PostTranslate (inputRef r) (sourceLanguageRef r) (targetLanguageRef r)]))
   \<and> disabled (fst (receiver_onMessageReceived r m))
        = (disabled r \<and> \<not> is_result (TranslationMessage m))
   \<and> (disabled (fst (receiver_run lm receiver_init revs)) \<longleftrightarrow>
        (\<exists>i < length revs. posts (snd (receiver_run lm receiver_init revs) ! i)
           \<and> (\<forall>e \<in> set (drop (Suc i) revs). \<not> is_result e)))
   \<and> (isProcessing b \<longrightarrow> processing_effect dec b = [])
   \<and> (\<not> isProcessing b \<and> recorderRef b \<and> recording b \<and> status b = Some ''ready'' \<longrightarrow>
        processing_effect dec b
          = (if chunks b = [] then [RequestData]
             else onloadend dec (language b) (Blob (chunks b))))
   \<and> (recorderRef b \<and> recording b \<and> status b = Some ''ready'' \<and> chunks b \<noteq> []
        \<and> dec (Blob (chunks b)) = Some decoded \<longrightarrow>
        (processing_effect dec b = [] \<longleftrightarrow> isProcessing b)
        \<and> (\<not> isProcessing b \<longrightarrow>
             processing_effect dec b
               = [PostMessage (Generate (if length decoded > MAX_SAMPLES
                                         then slice decoded (- int MAX_SAMPLES) else decoded)
                                (language b))]))
   \<and> fst (fire dec b EffectRun) = b
   \<and> isProcessing (fst (fire dec b ev))
        = (ev = WorkerMessage Start \<or> (\<not> is_complete ev \<and> isProcessing b))
   \<and> (isProcessing (fst (run dec broadcaster_init evs)) \<longleftrightarrow>
        (\<exists>i < length evs. evs ! i = WorkerMessage Start
           \<and> (\<forall>e \<in> set (drop (Suc i) evs). \<not> is_complete e)))"
proof (intro conjI)
  show "disabled r \<longrightarrow> translate r = (r, [])"
    by (simp add: translate_def)
  show "\<not> disabled r \<and> sourceLanguageRef r \<noteq> Some (targetLanguageRef r) \<longrightarrow>
        translate r = (r\<lparr>disabled := True\<rparr>,
                       [PostTranslate (inputRef r) (sourceLanguageRef r) (targetLanguageRef r)])"
    by (simp add: translate_def)
  show "disabled (fst (receiver_onMessageReceived r m))
        = (disabled r \<and> \<not> is_result (TranslationMessage m))"
    by (rule receiver_onMessageReceived_gate)
  have "\<not> disabled receiver_init"
    by (simp add: receiver_init_def)
  then show "disabled (fst (receiver_run lm receiver_init revs)) \<longleftrightarrow>
        (\<exists>i < length revs. posts (snd (receiver_run lm receiver_init revs) ! i)
           \<and> (\<forall>e \<in> set (drop (Suc i) revs). \<not> is_result e))"
    by (rule gate_trace)
  show "isProcessing b \<longrightarrow> processing_effect dec b = []"
    by (simp add: processing_effect_def)
  show "\<not> isProcessing b \<and> recorderRef b \<and> recording b \<and> status b = Some ''ready'' \<longrightarrow>
        processing_effect dec b
          = (if chunks b = [] then [RequestData]
             else onloadend dec (language b) (Blob (chunks b)))"
    by (simp add: processing_effect_def)
  show "recorderRef b \<and> recording b \<and> status b = Some ''ready'' \<and> chunks b \<noteq> []
        \<and> dec (Blob (chunks b)) = Some decoded \<longrightarrow>
        (processing_effect dec b = [] \<longleftrightarrow> isProcessing b)
        \<and> (\<not> isProcessing b \<longrightarrow>
             processing_effect dec b
               = [PostMessage (Generate (if length decoded > MAX_SAMPLES
                                         then slice decoded (- int MAX_SAMPLES) else decoded)
                                (language b))])"
    by (simp add: processing_effect_def onloadend_def)
  show "fst (fire dec b EffectRun) = b"
    by simp
  show "isProcessing (fst (fire dec b ev))
        = (ev = WorkerMessage Start \<or> (\<not> is_complete ev \<and> isProcessing b))"
    by (rule fire_isProcessing)
  have "\<not> isProcessing broadcaster_init"
    by (simp add: broadcaster_init_def)
  then show "isProcessing (fst (run dec broadcaster_init evs)) \<longleftrightarrow>
        (\<exists>i < length evs. evs ! i = WorkerMessage Start
           \<and> (\<forall>e \<in> set (drop (Suc i) evs). \<not> is_complete e))"
    by (rule processing_trace)
qed

theorem gates_follow_requests_and_results_witness:
  "\<not> disabled receiver_init
   \<and> sourceLanguageRef receiver_init \<noteq> Some (targetLanguageRef receiver_init)
   \<and> translate receiver_init
       = (receiver_init\<lparr>disabled := True\<rparr>, [PostTranslate ''Hallo.'' (Some ''deu_Latn'') ''eng_Latn''])
   \<and> disabled (receiver_init\<lparr>disabled := True\<rparr>)
   \<and> translate (receiver_init\<lparr>disabled := True\<rparr>) = (receiver_init\<lparr>disabled := True\<rparr>, [])
   \<and> isProcessing (broadcaster_init\<lparr>recorderRef := True, status := Some ''ready'',
         recording := True, isProcessing := True, chunks := [[1, 2]]\<rparr>)
   \<and> processing_effect (Some \<circ> map (real \<circ> unat))
        (broadcaster_init\<lparr>recorderRef := True, status := Some ''ready'',
         recording := True, isProcessing := True, chunks := [[1, 2]]\<rparr>) = []
   \<and> \<not> isProcessing (broadcaster_init\<lparr>recorderRef := True, status := Some ''ready'',
         recording := True, chunks := [[1, 2]]\<rparr>)
   \<and> recorderRef (broadcaster_init\<lparr>recorderRef := True, status := Some ''ready'',
         recording := True, chunks := [[1, 2]]\<rparr>)
   \<and> recording (broadcaster_init\<lparr>recorderRef := True, status := Some ''ready'',
         recording := True, chunks := [[1, 2]]\<rparr>)
   \<and> status (broadcaster_init\<lparr>recorderRef := True, status := Some ''ready'',
         recording := True, chunks := [[1, 2]]\<rparr>) = Some ''ready''
   \<and> (Some \<circ> map (real \<circ> unat)) (Blob [[1, 2]]) = Some [1, 2]
   \<and> processing_effect (Some \<circ> map (real \<circ> unat))
        (broadcaster_init\<lparr>recorderRef := True, status := Some ''ready'',
         recording := True, chunks := [[1, 2]]\<rparr>) = [PostMessage (Generate [1, 2] ''en'')]
   \<and> receiver_run (map_of [(''de'', ''deu_Latn''), (''en'', ''eng_Latn'')]) receiver_init
       [Mounted, TranscriptReceived ''Guten Tag.'' ''de'',
        TranslationMessage (TComplete [''Hello.'']), TranscriptReceived ''Guten Tag.'' ''de'']
    = (\<lparr> ready = None, disabled = True, items = [], input = ''Guten Tag.'',
         inputRef = ''Guten Tag.'', sourceLanguage = Some ''deu_Latn'',
         sourceLanguageRef = Some ''deu_Latn'', targetLanguage = ''eng_Latn'',
         targetLanguageRef = ''eng_Latn'', output_cell = ''Hello.'' \<rparr>,
       [[PostTranslate ''Hallo.'' (Some ''deu_Latn'') ''eng_Latn'', Subscribe], [], [],
        [PostTranslate ''Guten Tag.'' (Some ''deu_Latn'') ''eng_Latn'']])
   \<and> isProcessing (fst (run (Some \<circ> map (real \<circ> unat)) broadcaster_init
        [WorkerMessage Start, WorkerMessage (Complete [''hi'']), WorkerMessage Start, EffectRun]))"
  using gates_follow_requests_and_results
    [of receiver_init "TComplete [''Hello.'']" "map_of [(''de'', ''deu_Latn''), (''en'', ''eng_Latn'')]"
      "[Mounted, TranscriptReceived ''Guten Tag.'' ''de'',
        TranslationMessage (TComplete [''Hello.'']), TranscriptReceived ''Guten Tag.'' ''de'']"
      "broadcaster_init\<lparr>recorderRef := True, status := Some ''ready'',
         recording := True, isProcessing := True, chunks := [[1, 2]]\<rparr>"
      "Some \<circ> map (real \<circ> unat)" "[1, 2]" EffectRun
      "[WorkerMessage Start, WorkerMessage (Complete [''hi'']), WorkerMessage Start, EffectRun]"]
    gates_follow_requests_and_results
    [of "receiver_init\<lparr>disabled := True\<rparr>" "TComplete [''Hello.'']"
      "map_of [(''de'', ''deu_Latn''), (''en'', ''eng_Latn'')]" "[]"
      "broadcaster_init\<lparr>recorderRef := True, status := Some ''ready'',
         recording := True, chunks := [[1, 2]]\<rparr>"
      "Some \<circ> map (real \<circ> unat)" "[1, 2]" EffectRun "[]"]
  by (simp add: receiver_init_def translate_def ev_defs)

text \<open>
  C2, as the specification states it, fails for transcription: in this run the processing
  effect posts a window, the user then selects another language, which makes the effect
  run again, and the effect posts a second window although the first request was granted
  and no \<open>complete\<close> message has arrived; the worker's \<open>start\<close> message had not arrived yet.
\<close>

theorem second_request_granted_counterexample:
  "run (Some \<circ> map (real \<circ> unat)) broadcaster_init
     [UserMediaGranted, LoadClicked, WorkerMessage Ready, RecorderOnStart,
      RecorderDataAvailable [1, 2], EffectRun, LanguageSelected ''fr'', EffectRun]
   = (\<lparr> recorderRef = True, status = Some ''ready'', loadingMessage = [], progressItems = [],
        text_cell = [], tps = None, language = ''fr'', languageRef = ''fr'',
        recording = True, isProcessing = False, chunks = [[1, 2]] \<rparr>,
      [[], [PostMessage Load], [RecorderStart], [], [],
       [PostMessage (Generate [1, 2] ''en'')],
       [RecorderStop, RecorderStart],
       [PostMessage (Generate [1, 2] ''fr'')]])"
  by (simp add: ev_defs)

section \<open>Translation requests\<close>

text \<open>
  C9. A call of \<open>translate\<close> while \<open>disabled\<close> is set returns at once: no message is
  posted and the whole state (output, input, languages, gate) is as before, also when the
  source language equals the target language.
\<close>

theorem translate_dropped_while_gate_held:
  assumes "disabled s"
  shows "translate s = (s, [])"
  using assms by (simp add: translate_def)

theorem translate_dropped_while_gate_held_witness:
  "disabled (receiver_init\<lparr>disabled := True, sourceLanguageRef := Some ''eng_Latn''\<rparr>)
   \<and> sourceLanguageRef (receiver_init\<lparr>disabled := True, sourceLanguageRef := Some ''eng_Latn''\<rparr>)
       = Some (targetLanguageRef (receiver_init\<lparr>disabled := True, sourceLanguageRef := Some ''eng_Latn''\<rparr>))
   \<and> translate (receiver_init\<lparr>disabled := True, sourceLanguageRef := Some ''eng_Latn''\<rparr>)
       = (receiver_init\<lparr>disabled := True, sourceLanguageRef := Some ''eng_Latn''\<rparr>, [])"
  using translate_dropped_while_gate_held
    [of "receiver_init\<lparr>disabled := True, sourceLanguageRef := Some ''eng_Latn''\<rparr>"]
  by (simp add: receiver_init_def)

text \<open>
  C6, as the code has it. With the text \<open>t\<close> as input and the same language \<open>L\<close> as source
  and target, \<open>translate\<close> posts nothing to the worker and leaves the gate as it is; it
  sets the output to \<open>t\<close> when the gate is free, and changes nothing when the gate is held.
\<close>

theorem same_language_short_circuit:
  assumes "inputRef s = t" and "sourceLanguageRef s = Some L" and "targetLanguageRef s = L"
  shows "snd (translate s) = []
    \<and> disabled (fst (translate s)) = disabled s
    \<and> (\<not> disabled s \<longrightarrow> fst (translate s) = s\<lparr>output_cell := t\<rparr>)
    \<and> (disabled s \<longrightarrow> fst (translate s) = s)"
  using assms by (simp add: translate_def)

theorem same_language_short_circuit_witness:
  "inputRef (receiver_init\<lparr>targetLanguageRef := ''deu_Latn''\<rparr>) = ''Hallo.''
   \<and> sourceLanguageRef (receiver_init\<lparr>targetLanguageRef := ''deu_Latn''\<rparr>) = Some ''deu_Latn''
   \<and> targetLanguageRef (receiver_init\<lparr>targetLanguageRef := ''deu_Latn''\<rparr>) = ''deu_Latn''
   \<and> \<not> disabled (receiver_init\<lparr>targetLanguageRef := ''deu_Latn''\<rparr>)
   \<and> translate (receiver_init\<lparr>targetLanguageRef := ''deu_Latn''\<rparr>)
       = (receiver_init\<lparr>targetLanguageRef := ''deu_Latn'', output_cell := ''Hallo.''\<rparr>, [])
   \<and> disabled (receiver_init\<lparr>targetLanguageRef := ''deu_Latn'', disabled := True\<rparr>)
   \<and> translate (receiver_init\<lparr>targetLanguageRef := ''deu_Latn'', disabled := True\<rparr>)
       = (receiver_init\<lparr>targetLanguageRef := ''deu_Latn'', disabled := True\<rparr>, [])"
  using same_language_short_circuit
    [of "receiver_init\<lparr>targetLanguageRef := ''deu_Latn''\<rparr>" "''Hallo.''" "''deu_Latn''"]
    same_language_short_circuit
    [of "receiver_init\<lparr>targetLanguageRef := ''deu_Latn'', disabled := True\<rparr>" "''Hallo.''"
      "''deu_Latn''"]
  by (simp add: receiver_init_def translate_def)

text \<open>
  C6, as the specification states it, fails while a request is in flight: the request
  posted on load holds the gate, the user then selects the source language as target, and
  the output stays empty instead of becoming \<open>Hallo.\<close>
\<close>

theorem same_language_gate_held_counterexample:
  "receiver_run (map_of [(''de'', ''deu_Latn''), (''en'', ''eng_Latn'')]) receiver_init
     [Mounted, TargetChanged ''deu_Latn'']
   = (\<lparr> ready = None, disabled = True, items = [], input = ''Hallo.'',
        inputRef = ''Hallo.'', sourceLanguage = Some ''deu_Latn'',
        sourceLanguageRef = Some ''deu_Latn'', targetLanguage = ''deu_Latn'',
        targetLanguageRef = ''deu_Latn'', output_cell = [] \<rparr>,
      [[PostTranslate ''Hallo.'' (Some ''deu_Latn'') ''eng_Latn'', Subscribe], []])"
  by (simp add: receiver_init_def translate_def)

text \<open>
  C4, as the code has it. A change of the target language while a request is in flight
  stores the new target and posts nothing, so the request in flight is not interrupted and
  the request for the new target is dropped. When the request in flight completes, its
  result becomes the output and the gate is released, and nothing is posted. The next call
  of \<open>translate\<close> (on the next transcript or target change) then posts the current input
  toward the stored target.
\<close>

theorem target_change_in_flight_is_dropped:
  assumes "disabled s"
  shows "receiver_fire lm s (TargetChanged x) = (s\<lparr>targetLanguage := x, targetLanguageRef := x\<rparr>, [])
    \<and> receiver_fire lm (s\<lparr>targetLanguage := x, targetLanguageRef := x\<rparr>)
         (TranslationMessage (TComplete (r # rs)))
       = (s\<lparr>targetLanguage := x, targetLanguageRef := x, output_cell := r, disabled := False\<rparr>, [])
    \<and> (sourceLanguageRef s \<noteq> Some x \<longrightarrow>
         translate (s\<lparr>targetLanguage := x, targetLanguageRef := x, output_cell := r, disabled := False\<rparr>)
         = (s\<lparr>targetLanguage := x, targetLanguageRef := x, output_cell := r, disabled := True\<rparr>,
            [PostTranslate (inputRef s) (sourceLanguageRef s) x]))"
  using assms by (simp add: translate_def)

theorem target_change_in_flight_is_dropped_witness:
  "disabled (fst (receiver_run (map_of [(''de'', ''deu_Latn'')]) receiver_init [Mounted]))
   \<and> receiver_run (map_of [(''de'', ''deu_Latn'')]) receiver_init
       [Mounted, TargetChanged ''fra_Latn'', TranslationMessage (TComplete [''Hello.'']),
        TranscriptReceived ''Guten Tag.'' ''de'']
     = (\<lparr> ready = None, disabled = True, items = [], input = ''Guten Tag.'',
          inputRef = ''Guten Tag.'', sourceLanguage = Some ''deu_Latn'',
          sourceLanguageRef = Some ''deu_Latn'', targetLanguage = ''fra_Latn'',
          targetLanguageRef = ''fra_Latn'', output_cell = ''Hello.'' \<rparr>,
        [[PostTranslate ''Hallo.'' (Some ''deu_Latn'') ''eng_Latn'', Subscribe], [], [],
         [PostTranslate ''Guten Tag.'' (Some ''deu_Latn'') ''fra_Latn'']])"
  using target_change_in_flight_is_dropped
    [of "fst (receiver_run (map_of [(''de'', ''deu_Latn'')]) receiver_init [Mounted])"
      "map_of [(''de'', ''deu_Latn'')]" "''fra_Latn''" "''Hello.''" "[]"]
  by (simp add: receiver_init_def translate_def)

text \<open>
  C4, as the specification states it, fails: the target language is changed to
  \<open>fra_Latn\<close> while the request posted on load is in flight; when that request completes,
  nothing is posted to the worker, and the output is the translation toward \<open>eng_Latn\<close>.
\<close>

theorem no_retrigger_after_completion_counterexample:
  "receiver_run (map_of [(''de'', ''deu_Latn''), (''en'', ''eng_Latn'')]) receiver_init
     [Mounted, TargetChanged ''fra_Latn'', TranslationMessage (TComplete [''Hello.''])]
   = (\<lparr> ready = None, disabled = False, items = [], input = ''Hallo.'',
        inputRef = ''Hallo.'', sourceLanguage = Some ''deu_Latn'',
        sourceLanguageRef = Some ''deu_Latn'', targetLanguage = ''fra_Latn'',
        targetLanguageRef = ''fra_Latn'', output_cell = ''Hello.'' \<rparr>,
      [[PostTranslate ''Hallo.'' (Some ''deu_Latn'') ''eng_Latn'', Subscribe], [], []])"
  by (simp add: receiver_init_def translate_def)

section \<open>Worker errors\<close>

text \<open>
  C5, as the code has it. Neither callback has a case for an error report: a worker
  message whose status is none of the handled ones changes nothing, so a gate that is held
  stays held and the next request of that kind is dropped. The translate gate is cleared
  only by a \<open>complete\<close> message that carries a translation, the transcribe gate only by a
  \<open>complete\<close> message.
\<close>

theorem error_report_leaves_gate_held:
  "receiver_onMessageReceived r (TUnhandled st) = (r, [])
   \<and> onMessageReceived b (Unhandled st) = (b, [])
   \<and> (disabled r \<longrightarrow> translate (fst (receiver_onMessageReceived r (TUnhandled st))) = (r, []))
   \<and> (isProcessing b \<longrightarrow> processing_effect dec (fst (onMessageReceived b (Unhandled st))) = [])
   \<and> disabled (fst (receiver_onMessageReceived r m))
        = (disabled r \<and> \<not> is_result (TranslationMessage m))
   \<and> isProcessing (fst (onMessageReceived b wm))
        = (wm = Start \<or> (\<not> is_complete (WorkerMessage wm) \<and> isProcessing b))"
proof (intro conjI)
  show "receiver_onMessageReceived r (TUnhandled st) = (r, [])"
    and "onMessageReceived b (Unhandled st) = (b, [])"
    by simp_all
  show "disabled r \<longrightarrow> translate (fst (receiver_onMessageReceived r (TUnhandled st))) = (r, [])"
    by (simp add: translate_def)
  show "isProcessing b \<longrightarrow> processing_effect dec (fst (onMessageReceived b (Unhandled st))) = []"
    by (simp add: processing_effect_def)
  show "disabled (fst (receiver_onMessageReceived r m))
        = (disabled r \<and> \<not> is_result (TranslationMessage m))"
    by (rule receiver_onMessageReceived_gate)
  show "isProcessing (fst (onMessageReceived b wm))
        = (wm = Start \<or> (\<not> is_complete (WorkerMessage wm) \<and> isProcessing b))"
    by (rule onMessageReceived_isProcessing)
qed

theorem error_report_leaves_gate_held_witness:
  "disabled (fst (receiver_run (map_of [(''de'', ''deu_Latn'')]) receiver_init [Mounted]))
   \<and> isProcessing (fst (run (Some \<circ> map (real \<circ> unat)) broadcaster_init
        [UserMediaGranted, LoadClicked, WorkerMessage Ready, RecorderOnStart,
         RecorderDataAvailable [1, 2], EffectRun, WorkerMessage Start]))
   \<and> translate (fst (receiver_run (map_of [(''de'', ''deu_Latn'')]) receiver_init
        [Mounted, TranslationMessage (TUnhandled ''error'')]))
      = (fst (receiver_run (map_of [(''de'', ''deu_Latn'')]) receiver_init [Mounted]), [])
   \<and> processing_effect (Some \<circ> map (real \<circ> unat))
        (fst (run (Some \<circ> map (real \<circ> unat)) broadcaster_init
          [UserMediaGranted, LoadClicked, WorkerMessage Ready, RecorderOnStart,
           RecorderDataAvailable [1, 2], EffectRun, WorkerMessage Start,
           WorkerMessage (Unhandled ''error'')])) = []"
  using error_report_leaves_gate_held
    [of "fst (receiver_run (map_of [(''de'', ''deu_Latn'')]) receiver_init [Mounted])" "''error''"
      "fst (run (Some \<circ> map (real \<circ> unat)) broadcaster_init
        [UserMediaGranted, LoadClicked, WorkerMessage Ready, RecorderOnStart,
         RecorderDataAvailable [1, 2], EffectRun, WorkerMessage Start])"
      "Some \<circ> map (real \<circ> unat)" "TUnhandled ''error''" "Unhandled ''error''"]
  by (simp add: receiver_init_def translate_def ev_defs)

text \<open>
  C5, as the specification states it, fails: the request posted on load holds the translate
  gate, the worker reports an error, and the transcript that arrives next is not sent to
  the worker, because the gate is still held.
\<close>

theorem error_keeps_gate_counterexample:
  "receiver_run (map_of [(''de'', ''deu_Latn''), (''en'', ''eng_Latn'')]) receiver_init
     [Mounted, TranslationMessage (TUnhandled ''error''), TranscriptReceived ''Guten Tag.'' ''de'']
   = (\<lparr> ready = None, disabled = True, items = [], input = ''Guten Tag.'',
        inputRef = ''Guten Tag.'', sourceLanguage = Some ''deu_Latn'',
        sourceLanguageRef = Some ''deu_Latn'', targetLanguage = ''eng_Latn'',
        targetLanguageRef = ''eng_Latn'', output_cell = [] \<rparr>,
      [[PostTranslate ''Hallo.'' (Some ''deu_Latn'') ''eng_Latn'', Subscribe], [], []])"
  by (simp add: receiver_init_def translate_def)

end
